theory Spec2Isabelle
  imports Main "HOL-Library.Word"
begin

unbundle bit_operations_syntax

section \<open>Identifiers, access rights and the access map\<close>

text \<open>
  A \<open>QnUuid\<close> is an opaque identifier; the default-constructed \<open>QnUuid()\<close> is the null
  id, here \<open>0\<close>.
\<close>

type_synonym QnUuid = nat

definition isNull :: "QnUuid \<Rightarrow> bool" where
  "isNull u = (u = 0)"

text \<open>
  Modelled from the spec: the ids of the special resource groups
  (\<open>nx::vms::api::kAll...GroupId\<close>) are declared outside the sources at hand; they are
  fixed, non-null and pairwise different ids.
\<close>

definition kAllDevicesGroupId :: QnUuid where
  "kAllDevicesGroupId = 1"

definition kAllVideoWallsGroupId :: QnUuid where
  "kAllVideoWallsGroupId = 2"

definition kAllWebPagesGroupId :: QnUuid where
  "kAllWebPagesGroupId = 3"

definition kAllServersGroupId :: QnUuid where
  "kAllServersGroupId = 4"

datatype SpecialResourceGroup = allDevices | allServers | allWebPages | allVideowalls

definition specialResourceGroup :: "QnUuid \<Rightarrow> SpecialResourceGroup option" where
  "specialResourceGroup groupId =
     (if groupId = kAllDevicesGroupId then Some allDevices
      else if groupId = kAllServersGroupId then Some allServers
      else if groupId = kAllWebPagesGroupId then Some allWebPages
      else if groupId = kAllVideoWallsGroupId then Some allVideowalls
      else None)"

text \<open>
  \<open>AccessRights\<close> is the flags type over \<open>AccessRight\<close>, a 32-bit mask; an \<open>AccessRight\<close> is one
  enumerator of it. \<open>testFlag\<close> is the test of \<open>QFlags\<close>: all bits of the flag are set,
  and the zero flag is only "set" in the empty mask.
\<close>

type_synonym AccessRights = "32 word"
type_synonym AccessRight = "32 word"

definition testFlag :: "AccessRights \<Rightarrow> AccessRight \<Rightarrow> bool" where
  "testFlag i flag = (i AND flag = flag \<and> (flag \<noteq> 0 \<or> i = flag))"

text \<open>
  \<open>ResourceAccessMap\<close> is a hash from target id to mask. \<open>value\<close> of an absent key is the
  default-constructed (empty) mask.
\<close>

type_synonym ResourceAccessMap = "QnUuid \<rightharpoonup> AccessRights"

definition accessMap_value :: "ResourceAccessMap \<Rightarrow> QnUuid \<Rightarrow> AccessRights" where
  "accessMap_value accessMap k = (case accessMap k of None \<Rightarrow> 0 | Some v \<Rightarrow> v)"

text \<open>
  \<open>modifyAccessRights\<close>. The hash's \<open>emplace\<close> stores the mask under the key, replacing the
  entry of a key that is already present; \<open>remove\<close> deletes the entry.
\<close>

definition modifyAccessRights ::
  "ResourceAccessMap \<Rightarrow> QnUuid \<Rightarrow> AccessRights \<Rightarrow> bool \<Rightarrow> ResourceAccessMap" where
  "modifyAccessRights accessMap resourceOrGroupId accessRightsMask v =
     (let accessRights = accessMap_value accessMap resourceOrGroupId;
          newAccessRights =
            (if v then accessRights OR accessRightsMask
             else accessRights AND NOT accessRightsMask)
      in if newAccessRights = accessRights then accessMap
         else if newAccessRights \<noteq> 0 then accessMap(resourceOrGroupId \<mapsto> newAccessRights)
         else accessMap(resourceOrGroupId := None))"

section \<open>Resources and the per-right access info\<close>

text \<open>
  A resource pointer is identified with the resource it points to; \<open>address\<close> is the
  pointer value (the order \<open>std::upper_bound\<close> compares by), \<open>resourceClass\<close> the dynamic
  class that \<open>qobject_cast\<close> and the typed queries of the resource pool look at, and
  \<open>containedIds\<close> the ids of the resources a layout or a video wall shows. A null pointer
  is \<open>None\<close>.
\<close>

datatype ResourceClass =
  CameraResource | DesktopCameraResource | MediaServerResource | WebPageResource
  | LayoutResource | VideoWallResource | OtherResource

record QnResource =
  getId :: QnUuid
  address :: nat
  resourceClass :: ResourceClass
  containedIds :: "QnUuid list"

type_synonym QnResourcePtr = "QnResource option"

datatype ProvidedVia =
  none | own | ownResourceGroup | layout | videowall | parentUserGroup | unknown

text \<open>
  The fields of \<open>ResourceAccessInfo\<close> are the ones the model reads and writes; a
  default-constructed value has provenance \<open>none\<close>, empty lists and zero counts.
\<close>

record ResourceAccessInfo =
  providedVia :: ProvidedVia
  providerUserGroups :: "QnUuid list"
  indirectProviders :: "QnResourcePtr list"
  checkedChildCount :: int
  totalChildCount :: int

definition defaultInfo :: ResourceAccessInfo where
  "defaultInfo =
     \<lparr>providedVia = none, providerUserGroups = [], indirectProviders = [],
      checkedChildCount = 0, totalChildCount = 0\<rparr>"

text \<open>\<open>ResourceAccessInfo::operator==\<close> and \<open>operator!=\<close>.\<close>

definition ResourceAccessInfo_eq :: "ResourceAccessInfo \<Rightarrow> ResourceAccessInfo \<Rightarrow> bool" where
  "ResourceAccessInfo_eq this other =
     (providedVia this = providedVia other
      \<and> providerUserGroups this = providerUserGroups other
      \<and> indirectProviders this = indirectProviders other
      \<and> checkedChildCount this = checkedChildCount other)"

definition ResourceAccessInfo_ne :: "ResourceAccessInfo \<Rightarrow> ResourceAccessInfo \<Rightarrow> bool" where
  "ResourceAccessInfo_ne this other = (\<not> ResourceAccessInfo_eq this other)"

text \<open>Equality of two \<open>QVector<ResourceAccessInfo>\<close>: same size, equal element by element.\<close>

fun vector_eq :: "ResourceAccessInfo list \<Rightarrow> ResourceAccessInfo list \<Rightarrow> bool" where
  "vector_eq [] [] = True"
| "vector_eq (a # as) (b # bs) = (ResourceAccessInfo_eq a b \<and> vector_eq as bs)"
| "vector_eq _ _ = False"

definition providerType :: "QnResource \<Rightarrow> ProvidedVia" where
  "providerType provider =
     (if resourceClass provider = LayoutResource then layout
      else if resourceClass provider = VideoWallResource then videowall
      else unknown)"

fun priorityKey :: "ProvidedVia \<Rightarrow> int" where
  "priorityKey videowall = 1"
| "priorityKey layout = 2"
| "priorityKey _ = 0"

definition ptrAddress :: "QnResourcePtr \<Rightarrow> nat" where
  "ptrAddress p = (case p of None \<Rightarrow> 0 | Some r \<Rightarrow> address r)"

text \<open>
  Insertion at \<open>std::upper_bound\<close>: before the first element whose pointer is greater
  than the new one.
\<close>

fun insertAtUpperBound :: "QnResourcePtr \<Rightarrow> QnResourcePtr list \<Rightarrow> QnResourcePtr list" where
  "insertAtUpperBound p [] = [p]"
| "insertAtUpperBound p (q # qs) =
     (if ptrAddress p < ptrAddress q then p # q # qs else q # insertAtUpperBound p qs)"

text \<open>
  The loop over the providers in \<open>updateInfo\<close>: a null provider is skipped, a provider of
  greater priority key replaces the provenance, and every provider is inserted into the
  sorted list.
\<close>

fun scanProviders :: "QnResourcePtr list \<Rightarrow> ResourceAccessInfo \<Rightarrow> ResourceAccessInfo" where
  "scanProviders [] newInfo = newInfo"
| "scanProviders (None # providers) newInfo = scanProviders providers newInfo"
| "scanProviders (Some provider # providers) newInfo =
     scanProviders providers
       (newInfo\<lparr>providedVia :=
                  (if priorityKey (providerType provider) > priorityKey (providedVia newInfo)
                   then providerType provider else providedVia newInfo),
                indirectProviders :=
                  insertAtUpperBound (Some provider) (indirectProviders newInfo)\<rparr>)"

section \<open>The editing context\<close>

text \<open>
  The context the model reads: the subject being edited and its own access map, the
  subject hierarchy (each subject with its direct parents), the stored access maps of
  the other subjects, the resource pool, and the table of required and dependent rights
  (\<open>requiredAccessRights\<close>, \<open>dependentAccessRights\<close>: declared outside the sources at hand,
  taken as given).
\<close>

type_synonym SubjectHierarchy = "(QnUuid \<times> QnUuid list) list"

record AccessSubjectEditingContext =
  currentSubjectId :: QnUuid
  ownResourceAccessMap :: ResourceAccessMap
  subjectHierarchy :: SubjectHierarchy
  storedAccessMaps :: "QnUuid \<Rightarrow> ResourceAccessMap"
  resourcePool :: "QnResource list"
  requiredAccessRights :: "AccessRight \<Rightarrow> AccessRights"
  dependentAccessRights :: "AccessRight \<Rightarrow> AccessRights"

text \<open>
  Modelled from the spec: \<open>AccessSubjectEditingContext::hasOwnAccessRight\<close> is declared
  outside the sources at hand; a subject holds a direct own grant on a target when the
  bit of the right is set in its own map there.
\<close>

definition hasOwnAccessRight :: "AccessSubjectEditingContext \<Rightarrow> QnUuid \<Rightarrow> AccessRight \<Rightarrow> bool" where
  "hasOwnAccessRight ctx targetId accessRight =
     testFlag (accessMap_value (ownResourceAccessMap ctx) targetId) accessRight"

text \<open>
  Modelled from the spec: \<open>AccessSubjectEditingContext::specialResourceGroupFor\<close> is
  declared outside the sources at hand; a resource belongs to at most one special
  collection, the one \<open>getGroupResources\<close> lists it in, and a null resource to none.
\<close>

definition specialResourceGroupFor :: "QnResourcePtr \<Rightarrow> QnUuid" where
  "specialResourceGroupFor res =
     (case res of
        None \<Rightarrow> 0
      | Some r \<Rightarrow>
          (case resourceClass r of
             CameraResource \<Rightarrow> kAllDevicesGroupId
           | MediaServerResource \<Rightarrow> kAllServersGroupId
           | WebPageResource \<Rightarrow> kAllWebPagesGroupId
           | VideoWallResource \<Rightarrow> kAllVideoWallsGroupId
           | _ \<Rightarrow> 0))"

text \<open>
  \<open>getGroupResources\<close>: the typed queries of the resource pool (all cameras but desktop
  cameras, the servers, the web pages, the video walls); an id that is no special group
  gives the empty list.
\<close>

definition getGroupResources :: "AccessSubjectEditingContext \<Rightarrow> QnUuid \<Rightarrow> QnResource list" where
  "getGroupResources ctx groupId =
     (case specialResourceGroup groupId of
        None \<Rightarrow> []
      | Some allDevices \<Rightarrow> filter (\<lambda>r. resourceClass r = CameraResource) (resourcePool ctx)
      | Some allServers \<Rightarrow> filter (\<lambda>r. resourceClass r = MediaServerResource) (resourcePool ctx)
      | Some allWebPages \<Rightarrow> filter (\<lambda>r. resourceClass r = WebPageResource) (resourcePool ctx)
      | Some allVideowalls \<Rightarrow> filter (\<lambda>r. resourceClass r = VideoWallResource) (resourcePool ctx))"

definition getGroupContents :: "AccessSubjectEditingContext \<Rightarrow> QnUuid \<Rightarrow> QnUuid list" where
  "getGroupContents ctx groupId = map getId (getGroupResources ctx groupId)"

text \<open>\<open>countGroupResources\<close> gives the pair (checked, total).\<close>

definition countGroupResources ::
  "AccessSubjectEditingContext \<Rightarrow> QnUuid \<Rightarrow> AccessRight \<Rightarrow> int \<times> int" where
  "countGroupResources ctx groupId accessRight =
     (let contents = getGroupResources ctx groupId;
          accessMap = ownResourceAccessMap ctx
      in (int (length (filter (\<lambda>r. testFlag (accessMap_value accessMap (getId r)) accessRight)
                         contents)),
          int (length contents)))"

section \<open>The subject hierarchy\<close>

text \<open>
  Modelled from the spec: the subject hierarchy (\<open>directParents\<close>, \<open>isRecursiveMember\<close>) is
  declared outside the sources at hand. \<open>directParents\<close> is the set of the direct parents
  of a subject. \<open>isRecursiveMember h member groups\<close> holds when one of \<open>groups\<close> is reached
  from \<open>member\<close> by following parent edges, at any depth; the traversal tracks the
  visited subjects and treats a revisit as "not a member", so a cycle ends it.
\<close>

definition directParents :: "SubjectHierarchy \<Rightarrow> QnUuid \<Rightarrow> QnUuid list" where
  "directParents h subject = (case map_of h subject of None \<Rightarrow> [] | Some ps \<Rightarrow> remdups ps)"

function reachesGroup ::
  "SubjectHierarchy \<Rightarrow> QnUuid list \<Rightarrow> QnUuid list \<Rightarrow> QnUuid list \<Rightarrow> bool" where
  "reachesGroup h groups [] alreadyVisited = False"
| "reachesGroup h groups (member # pending) alreadyVisited =
     (if member \<in> set alreadyVisited then reachesGroup h groups pending alreadyVisited
      else if \<exists>p \<in> set (directParents h member). p \<in> set groups then True
      else reachesGroup h groups (directParents h member @ pending) (member # alreadyVisited))"
  by pat_completeness auto
termination
proof (relation "measures
    [\<lambda>(h, groups, pending, alreadyVisited). card (fst ` set h - set alreadyVisited),
     \<lambda>(h, groups, pending, alreadyVisited). length pending]")
  fix h :: SubjectHierarchy and groups pending alreadyVisited :: "QnUuid list" and member :: QnUuid
  assume fresh: "member \<notin> set alreadyVisited"
  show "((h, groups, directParents h member @ pending, member # alreadyVisited),
         (h, groups, member # pending, alreadyVisited))
    \<in> measures
        [\<lambda>(h, groups, pending, alreadyVisited). card (fst ` set h - set alreadyVisited),
         \<lambda>(h, groups, pending, alreadyVisited). length pending]"
  proof (cases "map_of h member")
    case None
    then have "member \<notin> fst ` set h"
      by (simp add: map_of_eq_None_iff)
    then have "fst ` set h - set (member # alreadyVisited) = fst ` set h - set alreadyVisited"
      by auto
    with None show ?thesis
      by (simp add: directParents_def)
  next
    case (Some ps)
    then have "member \<in> fst ` set h"
      by (metis map_of_eq_None_iff option.distinct(1))
    with fresh have "fst ` set h - set (member # alreadyVisited) \<subset> fst ` set h - set alreadyVisited"
      by auto
    then have "card (fst ` set h - set (member # alreadyVisited))
        < card (fst ` set h - set alreadyVisited)"
      by (intro psubset_card_mono) auto
    then show ?thesis
      by simp
  qed
qed simp_all

definition isRecursiveMember :: "SubjectHierarchy \<Rightarrow> QnUuid \<Rightarrow> QnUuid list \<Rightarrow> bool" where
  "isRecursiveMember h member groups = reachesGroup h groups [member] []"

text \<open>
  Modelled from the spec: \<open>AccessSubjectEditingContext::accessDetails\<close> is declared outside
  the sources at hand. Following the resolver of the spec, it maps every subject among
  the current subject and its ancestors that holds the right on the resource to the
  providers of that access: the resource itself for a direct grant or a grant on its
  special collection, and every layout or video wall of the pool that contains the
  resource and is itself granted. The current subject's grants are the edited own map,
  an ancestor's are its stored map.
\<close>

type_synonym ResourceAccessDetails = "(QnUuid \<times> QnResourcePtr list) list"

definition subjectAccessMap :: "AccessSubjectEditingContext \<Rightarrow> QnUuid \<Rightarrow> ResourceAccessMap" where
  "subjectAccessMap ctx subject =
     (if subject = currentSubjectId ctx then ownResourceAccessMap ctx
      else storedAccessMaps ctx subject)"

definition accessProviders ::
  "AccessSubjectEditingContext \<Rightarrow> QnUuid \<Rightarrow> QnResource \<Rightarrow> AccessRight \<Rightarrow> QnResourcePtr list" where
  "accessProviders ctx subject res accessRight =
     (let accessMap = subjectAccessMap ctx subject;
          groupId = specialResourceGroupFor (Some res)
      in (if testFlag (accessMap_value accessMap (getId res)) accessRight
             \<or> (\<not> isNull groupId \<and> testFlag (accessMap_value accessMap groupId) accessRight)
          then [Some res] else [])
         @ map Some
             (filter
                (\<lambda>c. (resourceClass c = LayoutResource \<or> resourceClass c = VideoWallResource)
                      \<and> getId res \<in> set (containedIds c)
                      \<and> testFlag (accessMap_value accessMap (getId c)) accessRight)
                (resourcePool ctx)))"

definition ancestorSubjects :: "AccessSubjectEditingContext \<Rightarrow> QnUuid list" where
  "ancestorSubjects ctx =
     filter
       (\<lambda>g. g \<noteq> currentSubjectId ctx
             \<and> isRecursiveMember (subjectHierarchy ctx) (currentSubjectId ctx) [g])
       (remdups (concat (map (\<lambda>(s, ps). s # ps) (subjectHierarchy ctx))))"

definition accessDetails ::
  "AccessSubjectEditingContext \<Rightarrow> QnResource \<Rightarrow> AccessRight \<Rightarrow> ResourceAccessDetails" where
  "accessDetails ctx res accessRight =
     filter (\<lambda>(subject, providers). providers \<noteq> [])
       (map (\<lambda>subject. (subject, accessProviders ctx subject res accessRight))
          (currentSubjectId ctx # ancestorSubjects ctx))"

section \<open>The model: its state, \<open>updateInfo\<close> and \<open>toggle\<close>\<close>

datatype NodeType =
  spacer | camerasAndDevices | videoWalls | integrations | webPages | servers | layouts
  | otherNodeType

record Private =
  contextPtr :: "AccessSubjectEditingContext option"
  accessRightList :: "AccessRight list"
  resource :: QnResourcePtr
  nodeType :: NodeType
  info :: "ResourceAccessInfo list"

fun groupIdOf :: "NodeType \<Rightarrow> QnUuid" where
  "groupIdOf camerasAndDevices = kAllDevicesGroupId"
| "groupIdOf videoWalls = kAllVideoWallsGroupId"
| "groupIdOf integrations = kAllWebPagesGroupId"
| "groupIdOf webPages = kAllWebPagesGroupId"
| "groupIdOf servers = kAllServersGroupId"
| "groupIdOf _ = 0"

definition groupId :: "Private \<Rightarrow> QnUuid" where
  "groupId d = groupIdOf (nodeType d)"

definition rowCount :: "Private \<Rightarrow> int" where
  "rowCount d = int (length (accessRightList d))"

text \<open>One row of \<open>updateInfo\<close> for a resource group (the branch that ends in \<open>continue\<close>).\<close>

definition resourceGroupInfo ::
  "AccessSubjectEditingContext \<Rightarrow> QnUuid \<Rightarrow> AccessRight \<Rightarrow> ResourceAccessInfo" where
  "resourceGroupInfo ctx gid accessRight =
     (if hasOwnAccessRight ctx gid accessRight then defaultInfo\<lparr>providedVia := own\<rparr>
      else defaultInfo\<lparr>checkedChildCount := fst (countGroupResources ctx gid accessRight),
                       totalChildCount := snd (countGroupResources ctx gid accessRight)\<rparr>)"

text \<open>
  One row of \<open>updateInfo\<close> for a resource, from the access details of the resource for
  the right of the row.
\<close>

definition resourceInfoFor ::
  "AccessSubjectEditingContext \<Rightarrow> QnResource \<Rightarrow> AccessRight \<Rightarrow> ResourceAccessDetails
     \<Rightarrow> ResourceAccessInfo" where
  "resourceInfoFor ctx res accessRight details =
     (case map_of details (currentSubjectId ctx) of
        Some providers \<Rightarrow>
          if Some res \<in> set providers then
            (let resourceGroupId = specialResourceGroupFor (Some res);
                 accessViaResourceGroup =
                   (\<not> isNull resourceGroupId
                    \<and> hasOwnAccessRight ctx resourceGroupId accessRight)
             in defaultInfo\<lparr>providedVia :=
                  (if accessViaResourceGroup then ownResourceGroup else own)\<rparr>)
          else scanProviders providers defaultInfo
      | None \<Rightarrow>
          if details \<noteq> [] then
            (let parents = directParents (subjectHierarchy ctx) (currentSubjectId ctx);
                 providerIds = map fst details
             in defaultInfo\<lparr>providedVia := parentUserGroup,
                  providerUserGroups :=
                    sort (filter
                      (\<lambda>key. key \<in> set providerIds
                             \<or> isRecursiveMember (subjectHierarchy ctx) key providerIds)
                      parents)\<rparr>)
          else defaultInfo)"

definition resourceInfo ::
  "AccessSubjectEditingContext \<Rightarrow> QnResource \<Rightarrow> AccessRight \<Rightarrow> ResourceAccessInfo" where
  "resourceInfo ctx res accessRight =
     resourceInfoFor ctx res accessRight (accessDetails ctx res accessRight)"

text \<open>The vector \<open>newResourceAccessInfo\<close> that \<open>updateInfo\<close> builds.\<close>

definition newResourceAccessInfo :: "Private \<Rightarrow> ResourceAccessInfo list" where
  "newResourceAccessInfo d =
     (let isResourceGroup = (\<not> isNull (groupId d)) in
      case contextPtr d of
        None \<Rightarrow> map (\<lambda>_. defaultInfo) (accessRightList d)
      | Some ctx \<Rightarrow>
          if \<not> isNull (currentSubjectId ctx) \<and> (resource d \<noteq> None \<or> isResourceGroup) then
            map (\<lambda>accessRight.
                   if isResourceGroup then resourceGroupInfo ctx (groupId d) accessRight
                   else (case resource d of
                           Some res \<Rightarrow> resourceInfo ctx res accessRight
                         | None \<Rightarrow> defaultInfo))
              (accessRightList d)
          else map (\<lambda>_. defaultInfo) (accessRightList d))"

text \<open>\<open>updateInfo\<close>: the stored vector is replaced unless the new one compares equal.\<close>

definition updateInfo :: "Private \<Rightarrow> Private" where
  "updateInfo d =
     (if vector_eq (newResourceAccessInfo d) (info d) then d
      else d\<lparr>info := newResourceAccessInfo d\<rparr>)"

text \<open>
  The locals of \<open>toggle\<close> after its guards, each as a function of what it is computed
  from: the context, the resource (null for a group), the target id, the toggled right,
  the row of \<open>info\<close> and the flag \<open>withDependentAccessRights\<close>.
\<close>

definition outerGroupWasChecked ::
  "AccessSubjectEditingContext \<Rightarrow> QnResourcePtr \<Rightarrow> AccessRight \<Rightarrow> bool" where
  "outerGroupWasChecked ctx res toggledRight =
     (let outerGroupId = specialResourceGroupFor res;
          hasOuterGroup = (\<not> isNull outerGroupId);
          outerGroupAccessRights =
            (if hasOuterGroup then accessMap_value (ownResourceAccessMap ctx) outerGroupId
             else 0)
      in testFlag outerGroupAccessRights toggledRight)"

definition itemWasChecked ::
  "AccessSubjectEditingContext \<Rightarrow> QnResourcePtr \<Rightarrow> QnUuid \<Rightarrow> AccessRight \<Rightarrow> bool" where
  "itemWasChecked ctx res targetId toggledRight =
     (outerGroupWasChecked ctx res toggledRight
      \<or> testFlag (accessMap_value (ownResourceAccessMap ctx) targetId) toggledRight)"

definition allChildrenWereChecked :: "ResourceAccessInfo \<Rightarrow> bool" where
  "allChildrenWereChecked rowInfo =
     (totalChildCount rowInfo > 0 \<and> totalChildCount rowInfo = checkedChildCount rowInfo)"

definition itemWillBeChecked ::
  "AccessSubjectEditingContext \<Rightarrow> QnResourcePtr \<Rightarrow> QnUuid \<Rightarrow> AccessRight
     \<Rightarrow> ResourceAccessInfo \<Rightarrow> bool" where
  "itemWillBeChecked ctx res targetId toggledRight rowInfo =
     (\<not> (itemWasChecked ctx res targetId toggledRight \<or> allChildrenWereChecked rowInfo))"

definition toggledMask ::
  "AccessSubjectEditingContext \<Rightarrow> QnResourcePtr \<Rightarrow> QnUuid \<Rightarrow> AccessRight
     \<Rightarrow> ResourceAccessInfo \<Rightarrow> bool \<Rightarrow> AccessRights" where
  "toggledMask ctx res targetId toggledRight rowInfo withDependentAccessRights =
     (if withDependentAccessRights then
        toggledRight OR
          (if itemWillBeChecked ctx res targetId toggledRight rowInfo
           then requiredAccessRights ctx toggledRight
           else dependentAccessRights ctx toggledRight)
      else toggledRight)"

text \<open>A loop \<open>for (itemId: ids) modifyAccessRights(accessMap, itemId, mask, value)\<close>.\<close>

definition modifyEach ::
  "ResourceAccessMap \<Rightarrow> QnUuid list \<Rightarrow> AccessRights \<Rightarrow> bool \<Rightarrow> ResourceAccessMap" where
  "modifyEach accessMap ids msk v =
     foldl (\<lambda>m itemId. modifyAccessRights m itemId msk v) accessMap ids"

text \<open>The body of \<open>toggle\<close> after its guards: the access map it hands to the context.\<close>

definition toggledAccessMap ::
  "AccessSubjectEditingContext \<Rightarrow> QnResourcePtr \<Rightarrow> QnUuid \<Rightarrow> AccessRight
     \<Rightarrow> ResourceAccessInfo \<Rightarrow> bool \<Rightarrow> ResourceAccessMap" where
  "toggledAccessMap ctx res targetId toggledRight rowInfo withDependentAccessRights =
     (let isGroup = (res = None);
          outerGroupId = specialResourceGroupFor res;
          accessMap = ownResourceAccessMap ctx;
          itemAccessRights = accessMap_value accessMap targetId;
          wasChecked = itemWasChecked ctx res targetId toggledRight;
          msk = toggledMask ctx res targetId toggledRight rowInfo withDependentAccessRights;
          accessMap1 =
            (if isGroup then
               modifyEach accessMap (getGroupContents ctx targetId)
                 (if wasChecked then msk AND itemAccessRights else msk) wasChecked
             else accessMap);
          accessMap2 =
            (if outerGroupWasChecked ctx res toggledRight then
               modifyAccessRights
                 (modifyEach accessMap1 (getGroupContents ctx outerGroupId) msk True)
                 outerGroupId msk False
             else accessMap1)
      in modifyAccessRights accessMap2 targetId msk
           (itemWillBeChecked ctx res targetId toggledRight rowInfo))"

text \<open>
  \<open>toggle\<close>. The guards return without a change; a failed \<open>NX_ASSERT\<close> on the null id is
  the early return the code writes. Reading \<open>info\<close> beyond its size is the one failure
  of the body. The result holds the context with the new own access map
  (\<open>setOwnResourceAccessMap\<close>).
\<close>

datatype failure = InfoIndexOutOfRange

definition toggleTargetId :: "Private \<Rightarrow> QnUuid" where
  "toggleTargetId d = (case resource d of Some r \<Rightarrow> getId r | None \<Rightarrow> groupId d)"

definition toggle :: "Private \<Rightarrow> int \<Rightarrow> bool \<Rightarrow> failure + Private" where
  "toggle d index withDependentAccessRights =
     (if index \<ge> rowCount d \<or> index < 0 \<or> contextPtr d = None then Inr d
      else case contextPtr d of
        None \<Rightarrow> Inr d
      | Some ctx \<Rightarrow>
          (let targetId = toggleTargetId d in
           if isNull targetId then Inr d
           else if nat index \<ge> length (info d) then Inl InfoIndexOutOfRange
           else Inr (d\<lparr>contextPtr := Some (ctx\<lparr>ownResourceAccessMap :=
                  toggledAccessMap ctx (resource d) targetId (accessRightList d ! nat index)
                    (info d ! nat index) withDependentAccessRights\<rparr>)\<rparr>)))"

text \<open>
  The slot connected to \<open>resourceAccessChanged\<close> in \<open>setContext\<close>: after a toggle the
  context announces the new map and the model runs \<open>updateInfo\<close>.
\<close>

definition toggleAndUpdate :: "Private \<Rightarrow> int \<Rightarrow> bool \<Rightarrow> failure + Private" where
  "toggleAndUpdate d index withDependentAccessRights =
     (case toggle d index withDependentAccessRights of
        Inl e \<Rightarrow> Inl e
      | Inr d' \<Rightarrow> Inr (updateInfo d'))"

text \<open>
  The condition of the spec for \<open>currentlyChecked\<close>, in its words: directly granted, or
  the target is a resource inside an own-granted collection, or the target is a
  collection all of whose members are individually checked.
\<close>

definition specCurrentlyChecked ::
  "Private \<Rightarrow> AccessSubjectEditingContext \<Rightarrow> AccessRight \<Rightarrow> bool" where
  "specCurrentlyChecked d ctx r =
     (hasOwnAccessRight ctx (toggleTargetId d) r
      \<or> (resource d \<noteq> None \<and> \<not> isNull (specialResourceGroupFor (resource d))
          \<and> hasOwnAccessRight ctx (specialResourceGroupFor (resource d)) r)
      \<or> (resource d = None
          \<and> (\<forall>m \<in> set (getGroupResources ctx (groupId d)). hasOwnAccessRight ctx (getId m) r)))"

text \<open>
  The rights a member of a collection effectively holds through its own entry and
  through the entry of the collection (the channels \<open>own\<close> and \<open>ownResourceGroup\<close>).
\<close>

definition effectiveOwnRights :: "ResourceAccessMap \<Rightarrow> QnUuid \<Rightarrow> QnUuid \<Rightarrow> AccessRights" where
  "effectiveOwnRights accessMap memberId collectionId =
     accessMap_value accessMap memberId OR accessMap_value accessMap collectionId"

text \<open>
  A right is one bit of the mask: the value of an enumerator of \<open>AccessRight\<close>.
\<close>

definition isAccessRightFlag :: "AccessRight \<Rightarrow> bool" where
  "isAccessRightFlag r = (r \<in> (\<lambda>n. 2 ^ n) ` {0..<32})"

section \<open>Concrete scenarios\<close>

text \<open>
  The scenarios of the spec: two rights (view and export, export requiring view), the
  subject \<open>u1\<close> with direct parent \<open>g1\<close>, whose direct parent is \<open>h1\<close>, and cameras,
  layouts and video walls with given ids.
\<close>

definition viewRight :: AccessRight where
  "viewRight = 1"

definition exportRight :: AccessRight where
  "exportRight = 2"

definition u1 :: QnUuid where
  "u1 = 10"

definition g1 :: QnUuid where
  "g1 = 11"

definition h1 :: QnUuid where
  "h1 = 12"

definition camera :: "QnUuid \<Rightarrow> QnResource" where
  "camera i = \<lparr>getId = i, address = i, resourceClass = CameraResource, containedIds = []\<rparr>"

definition layoutWith :: "QnUuid \<Rightarrow> QnUuid list \<Rightarrow> QnResource" where
  "layoutWith i xs =
     \<lparr>getId = i, address = i, resourceClass = LayoutResource, containedIds = xs\<rparr>"

definition videoWallWith :: "QnUuid \<Rightarrow> QnUuid list \<Rightarrow> QnResource" where
  "videoWallWith i xs =
     \<lparr>getId = i, address = i, resourceClass = VideoWallResource, containedIds = xs\<rparr>"

definition scenarioContext ::
  "ResourceAccessMap \<Rightarrow> QnResource list \<Rightarrow> AccessSubjectEditingContext" where
  "scenarioContext accessMap pool =
     \<lparr>currentSubjectId = u1, ownResourceAccessMap = accessMap,
      subjectHierarchy = [(u1, [g1]), (g1, [h1])],
      storedAccessMaps = (\<lambda>_. Map.empty), resourcePool = pool,
      requiredAccessRights = (\<lambda>r. if r = exportRight then viewRight else 0),
      dependentAccessRights = (\<lambda>r. if r = viewRight then exportRight else 0)\<rparr>"

text \<open>A model with the single row \<open>view\<close> whose \<open>info\<close> is current.\<close>

definition scenarioModel ::
  "AccessSubjectEditingContext \<Rightarrow> QnResourcePtr \<Rightarrow> NodeType \<Rightarrow> Private" where
  "scenarioModel ctx res node =
     \<lparr>contextPtr = Some ctx, accessRightList = [viewRight], resource = res, nodeType = node,
      info = newResourceAccessInfo
        \<lparr>contextPtr = Some ctx, accessRightList = [viewRight], resource = res,
         nodeType = node, info = []\<rparr>\<rparr>"

lemmas scenario_defs =
  viewRight_def exportRight_def u1_def g1_def h1_def camera_def layoutWith_def
  videoWallWith_def scenarioContext_def scenarioModel_def

lemmas resolve_defs =
  newResourceAccessInfo_def groupId_def isNull_def resourceInfo_def resourceInfoFor_def
  accessDetails_def accessProviders_def subjectAccessMap_def specialResourceGroupFor_def
  kAllDevicesGroupId_def kAllServersGroupId_def kAllWebPagesGroupId_def
  kAllVideoWallsGroupId_def testFlag_def accessMap_value_def ancestorSubjects_def
  isRecursiveMember_def directParents_def hasOwnAccessRight_def defaultInfo_def
  resourceGroupInfo_def countGroupResources_def getGroupResources_def
  specialResourceGroup_def Let_def providerType_def ptrAddress_def

lemmas toggle_defs =
  toggle_def toggleTargetId_def rowCount_def toggledAccessMap_def toggledMask_def
  itemWillBeChecked_def itemWasChecked_def outerGroupWasChecked_def
  allChildrenWereChecked_def modifyEach_def getGroupContents_def modifyAccessRights_def

section \<open>Properties of \<open>modifyAccessRights\<close> and of the loops over it\<close>

lemma modifyAccessRights_other:
  "k \<noteq> j \<Longrightarrow> modifyAccessRights m j msk v k = m k"
  by (simp add: modifyAccessRights_def Let_def)

lemma accessMap_value_modifyAccessRights:
  "accessMap_value (modifyAccessRights m j msk v) k =
     (if k = j then (if v then accessMap_value m j OR msk else accessMap_value m j AND NOT msk)
      else accessMap_value m k)"
  by (simp add: modifyAccessRights_def Let_def accessMap_value_def)

lemma modifyAccessRights_no_new_zero:
  "modifyAccessRights m j msk v k = Some 0 \<Longrightarrow> m k = Some 0"
  by (simp add: modifyAccessRights_def Let_def split: if_splits)

lemma modifyEach_Nil: "modifyEach m [] msk v = m"
  by (simp add: modifyEach_def)

lemma modifyEach_Cons:
  "modifyEach m (x # xs) msk v = modifyEach (modifyAccessRights m x msk v) xs msk v"
  by (simp add: modifyEach_def)

lemma modifyEach_other:
  "k \<notin> set ids \<Longrightarrow> modifyEach m ids msk v k = m k"
  by (induction ids arbitrary: m)
    (auto simp: modifyEach_Nil modifyEach_Cons modifyAccessRights_other)

lemma modifyEach_no_new_zero:
  "modifyEach m ids msk v k = Some 0 \<Longrightarrow> m k = Some 0"
  by (induction ids arbitrary: m)
    (auto simp: modifyEach_Nil modifyEach_Cons dest: modifyAccessRights_no_new_zero)

lemma accessMap_value_modifyEach:
  "accessMap_value (modifyEach m ids msk v) k =
     (if k \<in> set ids
      then (if v then accessMap_value m k OR msk else accessMap_value m k AND NOT msk)
      else accessMap_value m k)"
proof (induction ids arbitrary: m)
  case Nil
  show ?case by (simp add: modifyEach_Nil)
next
  case (Cons x xs)
  have idem_or: "(a OR msk) OR msk = a OR msk" for a :: AccessRights
    by (simp add: or.assoc)
  have idem_and: "(a AND NOT msk) AND NOT msk = a AND NOT msk" for a :: AccessRights
    by (simp add: and.assoc)
  show ?case
    by (simp add: modifyEach_Cons Cons.IH accessMap_value_modifyAccessRights idem_or idem_and)
qed

lemma toggledAccessMap_no_new_zero:
  "toggledAccessMap ctx res targetId r row w k = Some 0 \<Longrightarrow> ownResourceAccessMap ctx k = Some 0"
  unfolding toggledAccessMap_def Let_def
  by (auto dest!: modifyAccessRights_no_new_zero modifyEach_no_new_zero split: if_splits)

section \<open>Properties of \<open>toggle\<close>\<close>

lemma toggle_Inr_cases:
  assumes "toggle d index w = Inr d'" and "contextPtr d = Some ctx"
  shows "d' = d \<or>
         (0 \<le> index \<and> index < rowCount d \<and> \<not> isNull (toggleTargetId d)
          \<and> nat index < length (info d)
          \<and> d' = d\<lparr>contextPtr := Some (ctx\<lparr>ownResourceAccessMap :=
                  toggledAccessMap ctx (resource d) (toggleTargetId d)
                    (accessRightList d ! nat index) (info d ! nat index) w\<rparr>)\<rparr>)"
  using assms by (auto simp: toggle_def Let_def split: if_splits)

text \<open>
  The guards of \<open>toggle\<close>: an index outside the list of rights, a missing context and a
  null target id return the model as it was.
\<close>

lemma toggle_degenerate_is_noop:
  assumes "index < 0 \<or> index \<ge> rowCount d \<or> contextPtr d = None \<or> isNull (toggleTargetId d)"
  shows "toggle d index w = Inr d"
  using assms by (auto simp: toggle_def Let_def split: option.splits)

section \<open>Properties of \<open>updateInfo\<close> and of the locals of \<open>toggle\<close>\<close>

lemma testFlag_or_mask:
  "r \<noteq> 0 \<Longrightarrow> testFlag (a OR (r OR x)) r"
  by (simp add: testFlag_def bit_eq_iff bit_simps) blast

lemma testFlag_or:
  "r \<noteq> 0 \<Longrightarrow> testFlag (a OR r) r"
  by (simp add: testFlag_def bit_eq_iff bit_simps)

lemma testFlag_zero: "r \<noteq> 0 \<Longrightarrow> \<not> testFlag 0 r"
  by (auto simp: testFlag_def)

lemma newResourceAccessInfo_length:
  "length (newResourceAccessInfo d) = length (accessRightList d)"
  by (simp add: newResourceAccessInfo_def Let_def split: option.splits)

lemma newResourceAccessInfo_group_row:
  assumes "contextPtr d = Some ctx" "\<not> isNull (currentSubjectId ctx)" "\<not> isNull (groupId d)"
    "i < length (accessRightList d)"
  shows "newResourceAccessInfo d ! i = resourceGroupInfo ctx (groupId d) (accessRightList d ! i)"
  using assms by (simp add: newResourceAccessInfo_def Let_def)

lemma newResourceAccessInfo_resource_row:
  assumes "contextPtr d = Some ctx" "\<not> isNull (currentSubjectId ctx)" "isNull (groupId d)"
    "resource d = Some res" "i < length (accessRightList d)"
  shows "newResourceAccessInfo d ! i = resourceInfo ctx res (accessRightList d ! i)"
  using assms by (simp add: newResourceAccessInfo_def Let_def)

lemma newResourceAccessInfo_default_row:
  assumes "contextPtr d = Some ctx"
    "isNull (currentSubjectId ctx) \<or> (resource d = None \<and> isNull (groupId d))"
    "i < length (accessRightList d)"
  shows "newResourceAccessInfo d ! i = defaultInfo"
  using assms by (auto simp add: newResourceAccessInfo_def Let_def)

lemma scanProviders_counts:
  "checkedChildCount (scanProviders ps a) = checkedChildCount a
   \<and> totalChildCount (scanProviders ps a) = totalChildCount a"
  by (induction ps a rule: scanProviders.induct) auto

lemma resourceInfoFor_counts:
  "checkedChildCount (resourceInfoFor ctx res r details) = 0
   \<and> totalChildCount (resourceInfoFor ctx res r details) = 0"
  by (simp add: resourceInfoFor_def Let_def scanProviders_counts defaultInfo_def
      split: option.splits)

lemma allChildrenWereChecked_resourceInfo:
  "\<not> allChildrenWereChecked (resourceInfo ctx res r)"
  by (simp add: allChildrenWereChecked_def resourceInfo_def resourceInfoFor_counts)

lemma allChildrenWereChecked_defaultInfo: "\<not> allChildrenWereChecked defaultInfo"
  by (simp add: allChildrenWereChecked_def defaultInfo_def)

lemma length_filter_eq_iff: "length (filter P xs) = length xs \<longleftrightarrow> (\<forall>x \<in> set xs. P x)"
  by (metis filter_id_conv length_filter_less less_irrefl)

lemma allChildrenWereChecked_resourceGroupInfo:
  "allChildrenWereChecked (resourceGroupInfo ctx gid r) \<longleftrightarrow>
     \<not> hasOwnAccessRight ctx gid r \<and> getGroupResources ctx gid \<noteq> []
     \<and> (\<forall>m \<in> set (getGroupResources ctx gid). hasOwnAccessRight ctx (getId m) r)"
proof (cases "hasOwnAccessRight ctx gid r")
  case True
  then show ?thesis
    by (simp add: allChildrenWereChecked_def resourceGroupInfo_def defaultInfo_def)
next
  case False
  have "int (length xs) = int (length (filter P xs)) \<longleftrightarrow> (\<forall>x \<in> set xs. P x)"
    for P and xs :: "QnResource list"
    using length_filter_eq_iff [of P xs] by auto
  with False show ?thesis
    by (simp add: allChildrenWereChecked_def resourceGroupInfo_def countGroupResources_def
        Let_def defaultInfo_def hasOwnAccessRight_def)
qed

lemma info_row_not_all_checked_if_no_members:
  assumes ctx: "contextPtr d = Some ctx"
    and grp: "resource d = None" "\<not> isNull (groupId d)"
    and i: "i < length (accessRightList d)"
    and empty: "getGroupResources ctx (groupId d) = []"
  shows "\<not> allChildrenWereChecked (newResourceAccessInfo d ! i)"
proof (cases "isNull (currentSubjectId ctx)")
  case True
  with ctx i show ?thesis
    by (simp add: newResourceAccessInfo_default_row allChildrenWereChecked_defaultInfo)
next
  case False
  with ctx grp i empty show ?thesis
    by (simp add: newResourceAccessInfo_group_row allChildrenWereChecked_resourceGroupInfo)
qed

lemma outerGroupWasChecked_None:
  "r \<noteq> 0 \<Longrightarrow> \<not> outerGroupWasChecked ctx None r"
  by (simp add: outerGroupWasChecked_def specialResourceGroupFor_def isNull_def Let_def
      testFlag_zero)

lemma modifyAccessRights_set_new:
  assumes "\<not> testFlag (accessMap_value m k) r" "r \<noteq> 0" "testFlag (accessMap_value m k OR msk) r"
  shows "modifyAccessRights m k msk True = m(k \<mapsto> accessMap_value m k OR msk)"
proof -
  from assms have "accessMap_value m k OR msk \<noteq> accessMap_value m k"
    by auto
  moreover from assms(2,3) have "accessMap_value m k OR msk \<noteq> 0"
    by (auto simp: testFlag_def)
  ultimately show ?thesis
    by (simp add: modifyAccessRights_def Let_def)
qed

lemma newResourceAccessInfo_info_update:
  "newResourceAccessInfo (d\<lparr>info := x\<rparr>) = newResourceAccessInfo d"
  by (simp add: newResourceAccessInfo_def groupId_def Let_def cong: if_cong option.case_cong)

lemma scenarioModel_fields:
  "contextPtr (scenarioModel c r n) = Some c"
  "accessRightList (scenarioModel c r n) = [viewRight]"
  "resource (scenarioModel c r n) = r"
  "nodeType (scenarioModel c r n) = n"
  by (simp_all add: scenarioModel_def)

lemma scenarioModel_synced:
  "info (scenarioModel c r n) = newResourceAccessInfo (scenarioModel c r n)"
proof -
  have "scenarioModel c r n =
      \<lparr>contextPtr = Some c, accessRightList = [viewRight], resource = r, nodeType = n,
       info = []\<rparr>\<lparr>info := info (scenarioModel c r n)\<rparr>"
    by (simp add: scenarioModel_def)
  then have "newResourceAccessInfo (scenarioModel c r n) =
      newResourceAccessInfo
        \<lparr>contextPtr = Some c, accessRightList = [viewRight], resource = r, nodeType = n,
         info = []\<rparr>"
    by (metis newResourceAccessInfo_info_update)
  then show ?thesis
    by (simp add: scenarioModel_def)
qed

lemma outerGroupWasChecked_iff:
  "r \<noteq> 0 \<Longrightarrow> outerGroupWasChecked ctx res r \<longleftrightarrow>
     res \<noteq> None \<and> \<not> isNull (specialResourceGroupFor res)
     \<and> hasOwnAccessRight ctx (specialResourceGroupFor res) r"
  by (cases res)
    (auto simp: outerGroupWasChecked_def Let_def hasOwnAccessRight_def testFlag_zero
      specialResourceGroupFor_def isNull_def)

lemma synced_row_all_checked_iff:
  assumes ctx: "contextPtr d = Some ctx"
    and subj: "\<not> isNull (currentSubjectId ctx)"
    and target: "resource d = None \<or> isNull (groupId d)"
    and i: "i < length (accessRightList d)"
  shows "allChildrenWereChecked (newResourceAccessInfo d ! i) \<longleftrightarrow>
     resource d = None \<and> \<not> hasOwnAccessRight ctx (groupId d) (accessRightList d ! i)
     \<and> getGroupResources ctx (groupId d) \<noteq> []
     \<and> (\<forall>m \<in> set (getGroupResources ctx (groupId d)).
           hasOwnAccessRight ctx (getId m) (accessRightList d ! i))"
proof (cases "isNull (groupId d)")
  case True
  have none: "getGroupResources ctx (groupId d) = []"
    using True
    by (simp add: isNull_def getGroupResources_def specialResourceGroup_def
        kAllDevicesGroupId_def kAllServersGroupId_def kAllWebPagesGroupId_def
        kAllVideoWallsGroupId_def)
  show ?thesis
  proof (cases "resource d")
    case None
    with ctx True i show ?thesis
      by (simp add: newResourceAccessInfo_default_row allChildrenWereChecked_defaultInfo none)
  next
    case (Some res)
    with ctx subj True i show ?thesis
      by (simp add: newResourceAccessInfo_resource_row allChildrenWereChecked_resourceInfo)
  qed
next
  case False
  with target have "resource d = None" by simp
  with ctx subj False i show ?thesis
    by (simp add: newResourceAccessInfo_group_row allChildrenWereChecked_resourceGroupInfo)
qed

lemma word_or_and_not: "(a OR m) AND NOT m = a AND NOT m" for a m :: AccessRights
  by (auto simp: bit_eq_iff bit_simps)

lemma toggled_map_eq:
  fixes d :: Private
  assumes "t = Inr (d\<lparr>contextPtr := Some (c\<lparr>ownResourceAccessMap := m1\<rparr>)\<rparr>)"
    and "t = (Inr (d\<lparr>contextPtr := Some c2\<rparr>) :: failure + Private)"
  shows "m1 = ownResourceAccessMap c2"
proof -
  from assms have "d\<lparr>contextPtr := Some (c\<lparr>ownResourceAccessMap := m1\<rparr>)\<rparr> = d\<lparr>contextPtr := Some c2\<rparr>"
    by simp
  then have "contextPtr (d\<lparr>contextPtr := Some (c\<lparr>ownResourceAccessMap := m1\<rparr>)\<rparr>)
      = contextPtr (d\<lparr>contextPtr := Some c2\<rparr>)"
    by (rule arg_cong)
  then have "c\<lparr>ownResourceAccessMap := m1\<rparr> = c2"
    by simp
  then have "ownResourceAccessMap (c\<lparr>ownResourceAccessMap := m1\<rparr>) = ownResourceAccessMap c2"
    by (rule arg_cong)
  then show ?thesis
    by simp
qed

lemma scanProviders_providedVia:
  "providedVia (scanProviders ps a) =
     (if (\<exists>c. Some c \<in> set ps \<and> resourceClass c = LayoutResource) \<or> providedVia a = layout
      then layout
      else if (\<exists>c. Some c \<in> set ps \<and> resourceClass c = VideoWallResource)
              \<or> providedVia a = videowall
      then videowall
      else providedVia a)"
proof (induction ps a rule: scanProviders.induct)
  case (1 newInfo)
  show ?case by simp
next
  case (2 providers newInfo)
  then show ?case by (simp split del: if_split cong: if_cong)
next
  case (3 provider providers newInfo)
  define a' where "a' = newInfo\<lparr>providedVia :=
      (if priorityKey (providerType provider) > priorityKey (providedVia newInfo)
       then providerType provider else providedVia newInfo),
    indirectProviders := insertAtUpperBound (Some provider) (indirectProviders newInfo)\<rparr>"
  have step: "scanProviders (Some provider # providers) newInfo = scanProviders providers a'"
    by (simp add: a'_def)
  have IH: "providedVia (scanProviders providers a') =
     (if (\<exists>c. Some c \<in> set providers \<and> resourceClass c = LayoutResource) \<or> providedVia a' = layout
      then layout
      else if (\<exists>c. Some c \<in> set providers \<and> resourceClass c = VideoWallResource)
              \<or> providedVia a' = videowall
      then videowall
      else providedVia a')"
    unfolding a'_def by (rule "3.IH")
  have via: "providedVia a' =
      (if resourceClass provider = LayoutResource then layout
       else if resourceClass provider = VideoWallResource
               \<and> providedVia newInfo \<noteq> layout then videowall
       else providedVia newInfo)"
    by (cases "providedVia newInfo") (simp_all add: a'_def providerType_def)
  show ?case
    unfolding step IH via by auto
qed

lemma distinct_directParents: "distinct (directParents h s)"
  by (simp add: directParents_def split: option.splits)


lemma toggle_collection_values:
  fixes d :: Private and ctx :: AccessSubjectEditingContext and index :: int and w :: bool
  assumes ctx: "contextPtr d = Some ctx"
    and grp: "resource d = None" "\<not> isNull (groupId d)"
    and idx: "0 \<le> index" "index < rowCount d"
    and len: "nat index < length (info d)"
    and r0: "accessRightList d ! nat index \<noteq> 0"
    and sep: "groupId d \<notin> set (getGroupContents ctx (groupId d))"
  defines "r \<equiv> accessRightList d ! nat index"
    and "g \<equiv> groupId d"
    and "m \<equiv> ownResourceAccessMap ctx"
    and "row \<equiv> info d ! nat index"
  defines "was \<equiv> hasOwnAccessRight ctx g r"
    and "will \<equiv> itemWillBeChecked ctx None g r row"
    and "msk \<equiv> toggledMask ctx None g r row w"
    and "m' \<equiv> toggledAccessMap ctx None g r row w"
  shows "toggle d index w = Inr (d\<lparr>contextPtr := Some (ctx\<lparr>ownResourceAccessMap := m'\<rparr>)\<rparr>)
    \<and> itemWasChecked ctx None g r = was
    \<and> (was \<longrightarrow> \<not> will)
    \<and> (\<forall>b \<in> set (getGroupContents ctx g).
          accessMap_value m' b =
            (if was then accessMap_value m b OR (msk AND accessMap_value m g)
             else accessMap_value m b AND NOT msk))
    \<and> accessMap_value m' g =
        (if will then accessMap_value m g OR msk else accessMap_value m g AND NOT msk)
    \<and> (\<forall>k. k \<noteq> g \<and> k \<notin> set (getGroupContents ctx g) \<longrightarrow> m' k = m k)"
proof -
  have tog: "toggle d index w = Inr (d\<lparr>contextPtr := Some (ctx\<lparr>ownResourceAccessMap := m'\<rparr>)\<rparr>)"
    using ctx grp idx len
    by (simp add: toggle_def toggleTargetId_def Let_def m'_def r_def g_def row_def)
  have noOuter: "\<not> outerGroupWasChecked ctx None r"
    using r0 by (simp add: outerGroupWasChecked_None r_def)
  have was: "itemWasChecked ctx None g r = was"
    using noOuter by (simp add: itemWasChecked_def was_def hasOwnAccessRight_def)
  have notWill: "was \<longrightarrow> \<not> will"
    by (simp add: will_def itemWillBeChecked_def was)
  have m': "m' = modifyAccessRights
      (modifyEach m (getGroupContents ctx g)
         (if was then msk AND accessMap_value m g else msk) was)
      g msk will"
    using noOuter
    by (simp add: m'_def toggledAccessMap_def Let_def was msk_def will_def m_def)
  have members: "\<forall>b \<in> set (getGroupContents ctx g).
      accessMap_value m' b =
        (if was then accessMap_value m b OR (msk AND accessMap_value m g)
         else accessMap_value m b AND NOT msk)"
    using sep
    by (auto simp: m' accessMap_value_modifyAccessRights accessMap_value_modifyEach g_def)
  have coll: "accessMap_value m' g =
      (if will then accessMap_value m g OR msk else accessMap_value m g AND NOT msk)"
    using sep
    by (simp add: m' accessMap_value_modifyAccessRights accessMap_value_modifyEach g_def)
  have others: "\<forall>k. k \<noteq> g \<and> k \<notin> set (getGroupContents ctx g) \<longrightarrow> m' k = m k"
    by (simp add: m' modifyAccessRights_other modifyEach_other)
  from tog was notWill members coll others show ?thesis
    by blast
qed

text \<open>
  The scenario 2 of the spec: the collection of all devices has the members A, B and C
  (ids 101, 102, 103), the subject holds view on the collection, and view is toggled on
  A without the dependent rights. The result grants view to B and C and holds no entry
  for the collection or for A.
\<close>

lemma scenario2_toggle:
  "toggle
     (scenarioModel (scenarioContext [kAllDevicesGroupId \<mapsto> viewRight]
        [camera 101, camera 102, camera 103]) (Some (camera 101)) otherNodeType)
     0 False
   = Inr ((scenarioModel (scenarioContext [kAllDevicesGroupId \<mapsto> viewRight]
        [camera 101, camera 102, camera 103]) (Some (camera 101)) otherNodeType)
      \<lparr>contextPtr := Some (scenarioContext [102 \<mapsto> viewRight, 103 \<mapsto> viewRight]
        [camera 101, camera 102, camera 103])\<rparr>)"
  by (simp add: scenario_defs resolve_defs toggle_defs fun_eq_iff)

text \<open>
  The same scenario with the dependent rights (export depends on view), and the toggle
  of the collection of all devices when all of its members, or only one of them, hold
  view.
\<close>

lemma scenario2_with_dependents_toggle:
  "toggle
     (scenarioModel (scenarioContext [kAllDevicesGroupId \<mapsto> viewRight]
        [camera 101, camera 102, camera 103]) (Some (camera 101)) otherNodeType)
     0 True
   = Inr ((scenarioModel (scenarioContext [kAllDevicesGroupId \<mapsto> viewRight]
        [camera 101, camera 102, camera 103]) (Some (camera 101)) otherNodeType)
      \<lparr>contextPtr := Some (scenarioContext
        [102 \<mapsto> viewRight OR exportRight, 103 \<mapsto> viewRight OR exportRight]
        [camera 101, camera 102, camera 103])\<rparr>)"
  by (simp add: scenario_defs resolve_defs toggle_defs fun_eq_iff)

lemma all_checked_collection_toggle:
  "toggle
     (scenarioModel (scenarioContext [101 \<mapsto> viewRight, 102 \<mapsto> viewRight]
        [camera 101, camera 102]) None camerasAndDevices)
     0 False
   = Inr ((scenarioModel (scenarioContext [101 \<mapsto> viewRight, 102 \<mapsto> viewRight]
        [camera 101, camera 102]) None camerasAndDevices)
      \<lparr>contextPtr := Some (scenarioContext Map.empty [camera 101, camera 102])\<rparr>)"
  by (simp add: scenario_defs resolve_defs toggle_defs fun_eq_iff)

lemma partly_checked_collection_toggle:
  "toggle
     (scenarioModel (scenarioContext [101 \<mapsto> viewRight] [camera 101, camera 102])
        None camerasAndDevices)
     0 False
   = Inr ((scenarioModel (scenarioContext [101 \<mapsto> viewRight] [camera 101, camera 102])
        None camerasAndDevices)
      \<lparr>contextPtr := Some (scenarioContext [kAllDevicesGroupId \<mapsto> viewRight]
         [camera 101, camera 102])\<rparr>)"
  by (simp add: scenario_defs resolve_defs toggle_defs fun_eq_iff)


section \<open>Toggling on and off again\<close>

lemma isAccessRightFlag_nonzero: "isAccessRightFlag r \<Longrightarrow> r \<noteq> 0"
  by (auto simp: isAccessRightFlag_def)

lemma testFlag_single_bit:
  assumes "isAccessRightFlag r" "\<not> testFlag a r"
  shows "a AND NOT r = a"
proof -
  from assms(1) obtain n where n: "n < 32" "r = 2 ^ n"
    by (auto simp: isAccessRightFlag_def)
  have "\<not> bit a n"
  proof
    assume "bit a n"
    then have "a AND 2 ^ n = 2 ^ n"
      by (intro bit_word_eqI) (auto simp: bit_simps)
    moreover have "(2 :: AccessRights) ^ n \<noteq> 0"
      using n(1) by simp
    ultimately show False
      using assms(2) n(2) by (simp add: testFlag_def)
  qed
  then show ?thesis
    unfolding n(2) by (intro bit_word_eqI) (auto simp: bit_simps)
qed

lemma testFlag_and_not: "r \<noteq> 0 \<Longrightarrow> \<not> testFlag (a AND NOT r) r"
  by (auto simp: testFlag_def bit_eq_iff bit_simps)

lemma vector_eq_nth:
  "vector_eq a b \<Longrightarrow> i < length a \<Longrightarrow> ResourceAccessInfo_eq (a ! i) (b ! i)"
  by (induction a b arbitrary: i rule: vector_eq.induct) (auto simp: nth_Cons split: nat.splits)

lemma vector_eq_same_totals:
  "vector_eq a b \<Longrightarrow> \<forall>x \<in> set a. totalChildCount x = 0
     \<Longrightarrow> \<forall>x \<in> set b. totalChildCount x = 0 \<Longrightarrow> a = b"
  by (induction a b rule: vector_eq.induct) (auto simp: ResourceAccessInfo_eq_def)

lemma newResourceAccessInfo_no_group_totals:
  assumes "isNull (groupId d)"
  shows "\<forall>x \<in> set (newResourceAccessInfo d). totalChildCount x = 0"
  using assms
  by (auto simp: newResourceAccessInfo_def Let_def defaultInfo_def resourceInfo_def
      resourceInfoFor_counts split: option.splits)

lemma updateInfo_no_group:
  assumes "isNull (groupId d)" "\<forall>x \<in> set (info d). totalChildCount x = 0"
  shows "updateInfo d = d\<lparr>info := newResourceAccessInfo d\<rparr>"
proof (cases "vector_eq (newResourceAccessInfo d) (info d)")
  case True
  with assms have "newResourceAccessInfo d = info d"
    by (intro vector_eq_same_totals newResourceAccessInfo_no_group_totals)
  with True show ?thesis
    by (simp add: updateInfo_def)
next
  case False
  then show ?thesis
    by (simp add: updateInfo_def)
qed

lemma map_of_accessDetails_current:
  "map_of (accessDetails ctx res r) (currentSubjectId ctx) =
     (if accessProviders ctx (currentSubjectId ctx) res r = [] then None
      else Some (accessProviders ctx (currentSubjectId ctx) res r))"
proof -
  have "map_of (filter (\<lambda>(s, ps). ps \<noteq> []) (map (\<lambda>s. (s, f s)) xs)) k = None"
    if "k \<notin> set xs" for f :: "QnUuid \<Rightarrow> QnResourcePtr list" and xs k
    using that by (induction xs) auto
  moreover have "currentSubjectId ctx \<notin> set (ancestorSubjects ctx)"
    by (simp add: ancestorSubjects_def)
  ultimately show ?thesis
    by (simp add: accessDetails_def)
qed

lemma resourceInfo_own:
  assumes "hasOwnAccessRight ctx (getId res) r"
  shows "providedVia (resourceInfo ctx res r) =
     (if \<not> isNull (specialResourceGroupFor (Some res))
         \<and> hasOwnAccessRight ctx (specialResourceGroupFor (Some res)) r
      then ownResourceGroup else own)"
proof -
  from assms obtain ps where "accessProviders ctx (currentSubjectId ctx) res r = Some res # ps"
    by (simp add: accessProviders_def subjectAccessMap_def hasOwnAccessRight_def Let_def)
  then show ?thesis
    by (simp add: resourceInfo_def resourceInfoFor_def map_of_accessDetails_current Let_def
        defaultInfo_def)
qed

lemma restore_entry:
  fixes m :: ResourceAccessMap
  assumes flag: "isAccessRightFlag r"
    and notSet: "\<not> testFlag (accessMap_value m k) r"
    and nz: "m k \<noteq> Some 0"
  shows "modifyAccessRights (m(k \<mapsto> accessMap_value m k OR r)) k r False = m"
proof -
  define v where "v = accessMap_value m k"
  have r0: "r \<noteq> 0"
    using flag by (rule isAccessRightFlag_nonzero)
  have undo: "(v OR r) AND NOT r = v"
    using testFlag_single_bit [OF flag notSet] by (simp add: word_or_and_not v_def)
  have changed: "v \<noteq> v OR r"
    using notSet testFlag_or [OF r0, of v] by (auto simp: v_def)
  have stored: "accessMap_value (m(k \<mapsto> v OR r)) k = v OR r"
    by (simp add: accessMap_value_def)
  have entry: "m k = (if v = 0 then None else Some v)"
    using nz by (cases "m k") (auto simp: v_def accessMap_value_def)
  have "modifyAccessRights (m(k \<mapsto> v OR r)) k r False =
      (if v \<noteq> 0 then m(k \<mapsto> v) else m(k := None))"
    using changed by (simp add: modifyAccessRights_def Let_def stored undo)
  also have "\<dots> = m"
    using entry by (auto simp: fun_eq_iff)
  finally show ?thesis
    by (simp add: v_def)
qed

lemma toggle_resource_on_off:
  fixes d :: Private and ctx :: AccessSubjectEditingContext and res :: QnResource
    and index :: int
  assumes ctx: "contextPtr d = Some ctx"
    and subj: "\<not> isNull (currentSubjectId ctx)"
    and res: "resource d = Some res"
    and grp: "isNull (groupId d)"
    and idx: "0 \<le> index" "index < rowCount d"
    and sync: "info d = newResourceAccessInfo d"
    and flag: "isAccessRightFlag (accessRightList d ! nat index)"
    and on: "itemWillBeChecked ctx (Some res) (getId res) (accessRightList d ! nat index)
        (info d ! nat index)"
    and id: "\<not> isNull (getId res)"
    and sep: "getId res \<noteq> specialResourceGroupFor (Some res)"
    and nz: "ownResourceAccessMap ctx (getId res) \<noteq> Some 0"
  shows "\<exists>d1. toggleAndUpdate d index False = Inr d1
    \<and> providedVia (info d1 ! nat index) = own
    \<and> toggleAndUpdate d1 index False = Inr d"
proof -
  define r where "r = accessRightList d ! nat index"
  define m where "m = ownResourceAccessMap ctx"
  define k where "k = getId res"
  define g where "g = specialResourceGroupFor (Some res)"
  define m1 where "m1 = m(k \<mapsto> accessMap_value m k OR r)"
  define ctx1 where "ctx1 = ctx\<lparr>ownResourceAccessMap := m1\<rparr>"
  define d1' where "d1' = d\<lparr>contextPtr := Some ctx1\<rparr>"
  define d1 where "d1 = d1'\<lparr>info := newResourceAccessInfo d1'\<rparr>"
  have r0: "r \<noteq> 0"
    using flag by (simp add: isAccessRightFlag_nonzero r_def)
  from idx have i: "nat index < length (accessRightList d)"
    by (simp add: rowCount_def)
  have tid: "toggleTargetId d = k" "toggleTargetId d1 = k"
    using res by (simp_all add: toggleTargetId_def k_def d1_def d1'_def)
  have totals: "\<forall>x \<in> set (info d). totalChildCount x = 0"
    unfolding sync using grp by (rule newResourceAccessInfo_no_group_totals)
  \<comment> \<open>the first toggle\<close>
  from on have notOuter: "\<not> outerGroupWasChecked ctx (Some res) r"
    and notSet: "\<not> testFlag (accessMap_value m k) r"
    by (simp_all add: itemWillBeChecked_def itemWasChecked_def r_def m_def k_def)
  have set1: "testFlag (accessMap_value m k OR r) r"
    using r0 by (rule testFlag_or)
  have map1: "toggledAccessMap ctx (Some res) k r (info d ! nat index) False = m1"
    using notOuter on
    by (simp add: toggledAccessMap_def Let_def toggledMask_def r_def [symmetric]
        k_def [symmetric] m_def [symmetric] m1_def
        modifyAccessRights_set_new [OF notSet r0 set1])
  have len: "nat index < length (info d)"
    using i by (simp add: sync newResourceAccessInfo_length)
  have tog1: "toggle d index False = Inr d1'"
    using ctx idx len id
    by (simp add: toggle_def tid Let_def res map1 [unfolded r_def] d1'_def ctx1_def
        k_def [symmetric])
  have grp1: "isNull (groupId d1')"
    using grp by (simp add: d1'_def groupId_def)
  have upd1: "updateInfo d1' = d1"
    unfolding d1_def using grp1 totals
    by (intro updateInfo_no_group) (simp_all add: d1'_def)
  have first: "toggleAndUpdate d index False = Inr d1"
    by (simp add: toggleAndUpdate_def tog1 upd1)
  \<comment> \<open>what resolving reports after it\<close>
  have ctx1: "contextPtr d1' = Some ctx1" "resource d1' = Some res"
    "accessRightList d1' = accessRightList d"
    using res by (simp_all add: d1'_def)
  have subj1: "\<not> isNull (currentSubjectId ctx1)"
    using subj by (simp add: ctx1_def)
  have row1: "info d1 ! nat index = resourceInfo ctx1 res r"
    using newResourceAccessInfo_resource_row [OF ctx1(1) subj1 grp1 ctx1(2), of "nat index"] i
    by (simp add: d1_def ctx1(3) r_def)
  have own1: "hasOwnAccessRight ctx1 k r"
    using set1 by (simp add: hasOwnAccessRight_def ctx1_def m1_def accessMap_value_def)
  have g1: "accessMap_value m1 g = accessMap_value m g"
    using sep by (simp add: m1_def accessMap_value_def g_def k_def)
  have notOuter1: "\<not> outerGroupWasChecked ctx1 (Some res) r"
    using notOuter g1
    by (auto simp: outerGroupWasChecked_def Let_def ctx1_def m_def g_def split: if_splits)
  have via1: "providedVia (info d1 ! nat index) = own"
    using resourceInfo_own [OF own1 [unfolded k_def]] notOuter1
    by (simp add: row1 outerGroupWasChecked_iff [OF r0])
  \<comment> \<open>the second toggle\<close>
  have notAll1: "\<not> allChildrenWereChecked (info d1 ! nat index)"
    by (simp add: row1 allChildrenWereChecked_resourceInfo)
  have was1: "itemWasChecked ctx1 (Some res) k r"
    using own1 by (simp add: itemWasChecked_def hasOwnAccessRight_def)
  have map2: "toggledAccessMap ctx1 (Some res) k r (info d1 ! nat index) False = m"
    using notOuter1 was1 restore_entry [OF flag [folded r_def] notSet nz [folded m_def k_def]]
    by (simp add: toggledAccessMap_def Let_def toggledMask_def itemWillBeChecked_def
        ctx1_def m1_def)
  have ctx_again: "ctx1\<lparr>ownResourceAccessMap := m\<rparr> = ctx"
    by (simp add: ctx1_def m_def)
  have len1: "nat index < length (info d1)"
    using i by (simp add: d1_def newResourceAccessInfo_length ctx1(3))
  have d1_fields: "contextPtr d1 = Some ctx1" "resource d1 = Some res"
    "accessRightList d1 = accessRightList d" "rowCount d1 = rowCount d"
    using res by (simp_all add: d1_def d1'_def rowCount_def)
  have tog2: "toggle d1 index False = Inr (d1\<lparr>contextPtr := Some ctx\<rparr>)"
    using idx len1 id
    by (simp add: toggle_def tid Let_def d1_fields map2 [unfolded r_def] ctx_again
        k_def [symmetric])
  have d2': "d1\<lparr>contextPtr := Some ctx\<rparr> = d\<lparr>info := info d1\<rparr>"
    using ctx by (simp add: d1_def d1'_def)
  have same: "newResourceAccessInfo (d1\<lparr>contextPtr := Some ctx\<rparr>) = newResourceAccessInfo d"
    by (simp add: d2' newResourceAccessInfo_info_update)
  have totals1: "\<forall>x \<in> set (info (d1\<lparr>contextPtr := Some ctx\<rparr>)). totalChildCount x = 0"
    using newResourceAccessInfo_no_group_totals [OF grp1] by (simp add: d1_def)
  have "updateInfo (d1\<lparr>contextPtr := Some ctx\<rparr>) =
      d1\<lparr>contextPtr := Some ctx\<rparr>\<lparr>info := newResourceAccessInfo (d1\<lparr>contextPtr := Some ctx\<rparr>)\<rparr>"
    using grp totals1
    by (intro updateInfo_no_group) (simp_all add: d1_def d1'_def groupId_def)
  also have "\<dots> = d"
    unfolding same unfolding d2' using sync by simp
  finally have second: "toggleAndUpdate d1 index False = Inr d"
    by (simp add: toggleAndUpdate_def tog2)
  from first via1 second show ?thesis
    by blast
qed

lemma getGroupResources_map_update:
  "getGroupResources (ctx\<lparr>ownResourceAccessMap := m\<rparr>) g = getGroupResources ctx g"
  by (simp add: getGroupResources_def split: option.splits SpecialResourceGroup.splits)

lemma getGroupContents_map_update:
  "getGroupContents (ctx\<lparr>ownResourceAccessMap := m\<rparr>) g = getGroupContents ctx g"
  by (simp add: getGroupContents_def getGroupResources_map_update)

lemma updateInfo_row_differs:
  assumes "i < length (newResourceAccessInfo d)"
    and "\<not> ResourceAccessInfo_eq (newResourceAccessInfo d ! i) (info d ! i)"
  shows "updateInfo d = d\<lparr>info := newResourceAccessInfo d\<rparr>"
  using assms vector_eq_nth [of "newResourceAccessInfo d" "info d" i]
  by (auto simp: updateInfo_def)

lemma resourceGroupInfo_own:
  "hasOwnAccessRight ctx g r \<Longrightarrow> resourceGroupInfo ctx g r = defaultInfo\<lparr>providedVia := own\<rparr>"
  by (simp add: resourceGroupInfo_def)

lemma resourceGroupInfo_counts:
  "\<not> hasOwnAccessRight ctx g r \<Longrightarrow>
     resourceGroupInfo ctx g r =
       defaultInfo\<lparr>checkedChildCount :=
           int (length (filter (\<lambda>x. hasOwnAccessRight ctx (getId x) r)
                  (getGroupResources ctx g))),
         totalChildCount := int (length (getGroupResources ctx g))\<rparr>"
  by (simp add: resourceGroupInfo_def countGroupResources_def Let_def hasOwnAccessRight_def)

lemma toggle_collection_on_off:
  fixes d :: Private and ctx :: AccessSubjectEditingContext and index :: int
  assumes ctx: "contextPtr d = Some ctx"
    and subj: "\<not> isNull (currentSubjectId ctx)"
    and grp: "resource d = None" "\<not> isNull (groupId d)"
    and idx: "0 \<le> index" "index < rowCount d"
    and sync: "info d = newResourceAccessInfo d"
    and r0: "accessRightList d ! nat index \<noteq> 0"
    and on: "itemWillBeChecked ctx None (groupId d) (accessRightList d ! nat index)
        (info d ! nat index)"
    and sep: "groupId d \<notin> set (getGroupContents ctx (groupId d))"
  shows "\<exists>d1 d2. toggleAndUpdate d index False = Inr d1
    \<and> providedVia (info d1 ! nat index) = own
    \<and> toggleAndUpdate d1 index False = Inr d2
    \<and> info d2 ! nat index =
        defaultInfo\<lparr>checkedChildCount := int (length (getGroupResources ctx (groupId d))),
          totalChildCount := int (length (getGroupResources ctx (groupId d)))\<rparr>
    \<and> (ResourceAccessInfo_eq (info d2 ! nat index) (info d ! nat index)
         \<longleftrightarrow> getGroupResources ctx (groupId d) = [])"
proof -
  define r where "r = accessRightList d ! nat index"
  define g where "g = groupId d"
  define m where "m = ownResourceAccessMap ctx"
  define members where "members = getGroupResources ctx g"
  define m1 where "m1 = toggledAccessMap ctx None g r (info d ! nat index) False"
  define ctx1 where "ctx1 = ctx\<lparr>ownResourceAccessMap := m1\<rparr>"
  define d1' where "d1' = d\<lparr>contextPtr := Some ctx1\<rparr>"
  define d1 where "d1 = d1'\<lparr>info := newResourceAccessInfo d1'\<rparr>"
  define m2 where "m2 = toggledAccessMap ctx1 None g r (info d1 ! nat index) False"
  define ctx2 where "ctx2 = ctx1\<lparr>ownResourceAccessMap := m2\<rparr>"
  define d2' where "d2' = d1\<lparr>contextPtr := Some ctx2\<rparr>"
  define d2 where "d2 = d2'\<lparr>info := newResourceAccessInfo d2'\<rparr>"
  from idx have i: "nat index < length (accessRightList d)"
    by (simp add: rowCount_def)
  have len: "nat index < length (info d)"
    using i by (simp add: sync newResourceAccessInfo_length)
  have row0: "info d ! nat index = resourceGroupInfo ctx g r"
    unfolding sync r_def g_def
    using ctx subj grp(2) i by (rule newResourceAccessInfo_group_row)
  \<comment> \<open>what the first toggle is told\<close>
  from on r0 have notOwn: "\<not> hasOwnAccessRight ctx g r"
    and notAll: "\<not> allChildrenWereChecked (info d ! nat index)"
    by (simp_all add: itemWillBeChecked_def itemWasChecked_def hasOwnAccessRight_def
        r_def g_def)
  have mask1: "toggledMask ctx None g r (info d ! nat index) False = r"
    by (simp add: toggledMask_def)
  note first = toggle_collection_values [OF ctx grp idx len r0 sep, of False,
      folded r_def g_def, folded m1_def m_def, unfolded mask1]
  have tog1: "toggle d index False = Inr d1'"
    using first by (simp add: d1'_def ctx1_def)
  have g1: "accessMap_value m1 g = accessMap_value m g OR r"
    using first on by (simp add: r_def g_def)
  have own1: "hasOwnAccessRight ctx1 g r"
    using r0 by (simp add: hasOwnAccessRight_def ctx1_def g1 testFlag_or r_def)
  \<comment> \<open>the info after the first toggle\<close>
  have d1'_fields: "contextPtr d1' = Some ctx1" "accessRightList d1' = accessRightList d"
    "groupId d1' = g" "info d1' = info d"
    by (simp_all add: d1'_def groupId_def g_def)
  have subj1: "\<not> isNull (currentSubjectId ctx1)"
    using subj by (simp add: ctx1_def)
  have new1: "newResourceAccessInfo d1' ! nat index = defaultInfo\<lparr>providedVia := own\<rparr>"
    using newResourceAccessInfo_group_row [OF d1'_fields(1) subj1, of "nat index"] grp(2) i
    by (simp add: d1'_fields r_def [symmetric] g_def [symmetric] resourceGroupInfo_own own1)
  have "\<not> ResourceAccessInfo_eq (newResourceAccessInfo d1' ! nat index) (info d1' ! nat index)"
    using notOwn
    by (simp add: new1 d1'_fields row0 resourceGroupInfo_counts ResourceAccessInfo_eq_def
        defaultInfo_def)
  then have upd1: "updateInfo d1' = d1"
    unfolding d1_def using i
    by (intro updateInfo_row_differs) (simp_all add: newResourceAccessInfo_length d1'_fields)
  have first_result: "toggleAndUpdate d index False = Inr d1"
    by (simp add: toggleAndUpdate_def tog1 upd1)
  have row1: "info d1 ! nat index = defaultInfo\<lparr>providedVia := own\<rparr>"
    by (simp add: d1_def new1)
  \<comment> \<open>the second toggle\<close>
  have d1_fields: "contextPtr d1 = Some ctx1" "resource d1 = None" "groupId d1 = g"
    "accessRightList d1 = accessRightList d" "rowCount d1 = rowCount d"
    using grp(1) by (simp_all add: d1_def d1'_def groupId_def g_def rowCount_def)
  have len1: "nat index < length (info d1)"
    using i by (simp add: d1_def newResourceAccessInfo_length d1'_fields)
  have contents1: "getGroupContents ctx1 g = getGroupContents ctx g"
    and members1: "getGroupResources ctx1 g = members"
    by (simp_all add: ctx1_def getGroupContents_map_update getGroupResources_map_update
        members_def)
  have mask2: "toggledMask ctx1 None g r (info d1 ! nat index) False = r"
    by (simp add: toggledMask_def)
  have sep1: "groupId d1 \<notin> set (getGroupContents ctx1 (groupId d1))"
    using sep by (simp add: d1_fields contents1 g_def [symmetric])
  have r1: "accessRightList d1 ! nat index \<noteq> 0"
    using r0 by (simp add: d1_fields)
  have grp1: "\<not> isNull (groupId d1)"
    using grp(2) by (simp add: d1_fields g_def)
  have idx1: "index < rowCount d1"
    using idx(2) by (simp add: d1_fields)
  note second = toggle_collection_values
      [OF d1_fields(1,2) grp1 idx(1) idx1 len1 r1 sep1, of False,
        unfolded d1_fields, folded r_def, folded m2_def, unfolded mask2 contents1]
  have tog2: "toggle d1 index False = Inr d2'"
    using second by (simp add: d2'_def ctx2_def)
  have held: "r AND accessMap_value m1 g = r"
    using own1 by (simp add: hasOwnAccessRight_def ctx1_def testFlag_def and.commute)
  have members2: "\<forall>x \<in> set members. hasOwnAccessRight ctx2 (getId x) r"
  proof
    fix x
    assume "x \<in> set members"
    then have "getId x \<in> set (getGroupContents ctx g)"
      by (simp add: getGroupContents_def members_def)
    with second own1 have "accessMap_value m2 (getId x) =
        accessMap_value (ownResourceAccessMap ctx1) (getId x) OR r"
      by (simp add: held ctx1_def)
    then show "hasOwnAccessRight ctx2 (getId x) r"
      using r0 by (simp add: hasOwnAccessRight_def ctx2_def testFlag_or r_def)
  qed
  have g2: "accessMap_value m2 g = accessMap_value m1 g AND NOT r"
    using second own1 by (simp add: ctx1_def)
  have notOwn2: "\<not> hasOwnAccessRight ctx2 g r"
    using r0 by (simp add: hasOwnAccessRight_def ctx2_def g2 testFlag_and_not r_def)
  \<comment> \<open>the info after the second toggle\<close>
  have d2'_fields: "contextPtr d2' = Some ctx2" "accessRightList d2' = accessRightList d"
    "groupId d2' = g" "info d2' = info d1"
    by (simp_all add: d2'_def d1_def d1'_def groupId_def g_def)
  have subj2: "\<not> isNull (currentSubjectId ctx2)"
    using subj1 by (simp add: ctx2_def)
  have members_2: "getGroupResources ctx2 g = members"
    by (simp add: ctx2_def getGroupResources_map_update members1)
  have all2: "filter (\<lambda>x. hasOwnAccessRight ctx2 (getId x) r) members = members"
    using members2 by (simp add: filter_id_conv)
  have new2: "newResourceAccessInfo d2' ! nat index =
      defaultInfo\<lparr>checkedChildCount := int (length members),
        totalChildCount := int (length members)\<rparr>"
    using newResourceAccessInfo_group_row [OF d2'_fields(1) subj2, of "nat index"] grp(2) i
    by (simp add: d2'_fields r_def [symmetric] g_def [symmetric]
        resourceGroupInfo_counts [OF notOwn2] members_2 all2)
  have "\<not> ResourceAccessInfo_eq (newResourceAccessInfo d2' ! nat index) (info d2' ! nat index)"
    by (simp add: new2 d2'_fields row1 ResourceAccessInfo_eq_def defaultInfo_def)
  then have upd2: "updateInfo d2' = d2"
    unfolding d2_def using i
    by (intro updateInfo_row_differs) (simp_all add: newResourceAccessInfo_length d2'_fields)
  have second_result: "toggleAndUpdate d1 index False = Inr d2"
    by (simp add: toggleAndUpdate_def tog2 upd2)
  have row2: "info d2 ! nat index =
      defaultInfo\<lparr>checkedChildCount := int (length members),
        totalChildCount := int (length members)\<rparr>"
    by (simp add: d2_def new2)
  \<comment> \<open>against the info before the first toggle\<close>
  have before: "info d ! nat index =
      defaultInfo\<lparr>checkedChildCount :=
          int (length (filter (\<lambda>x. hasOwnAccessRight ctx (getId x) r) members)),
        totalChildCount := int (length members)\<rparr>"
    by (simp add: row0 resourceGroupInfo_counts [OF notOwn] members_def)
  from notAll have "members = [] \<or>
      length (filter (\<lambda>x. hasOwnAccessRight ctx (getId x) r) members) \<noteq> length members"
    by (auto simp: before allChildrenWereChecked_def defaultInfo_def)
  then have same: "ResourceAccessInfo_eq (info d2 ! nat index) (info d ! nat index)
      \<longleftrightarrow> members = []"
    by (auto simp: row2 before ResourceAccessInfo_eq_def defaultInfo_def)
  from first_result row1 second_result row2 same show ?thesis
    unfolding members_def g_def by (intro exI [of _ d1] exI [of _ d2]) simp
qed

lemma toggleAndUpdate_resource_on:
  "toggleAndUpdate
     (scenarioModel (scenarioContext Map.empty [camera 101]) (Some (camera 101)) otherNodeType)
     0 False
   = Inr (scenarioModel (scenarioContext [101 \<mapsto> viewRight] [camera 101])
       (Some (camera 101)) otherNodeType)"
  by (simp add: toggleAndUpdate_def updateInfo_def ResourceAccessInfo_eq_def scenario_defs
      resolve_defs toggle_defs fun_eq_iff)

lemma toggleAndUpdate_collection_on:
  "toggleAndUpdate
     (scenarioModel (scenarioContext Map.empty [camera 101]) None camerasAndDevices) 0 False
   = Inr (scenarioModel (scenarioContext [kAllDevicesGroupId \<mapsto> viewRight] [camera 101])
       None camerasAndDevices)"
  by (simp add: toggleAndUpdate_def updateInfo_def ResourceAccessInfo_eq_def scenario_defs
      resolve_defs toggle_defs fun_eq_iff)

lemma toggleAndUpdate_collection_off:
  "toggleAndUpdate
     (scenarioModel (scenarioContext [kAllDevicesGroupId \<mapsto> viewRight] [camera 101])
        None camerasAndDevices) 0 False
   = Inr (scenarioModel (scenarioContext [101 \<mapsto> viewRight] [camera 101])
       None camerasAndDevices)"
  by (simp add: toggleAndUpdate_def updateInfo_def ResourceAccessInfo_eq_def scenario_defs
      resolve_defs toggle_defs fun_eq_iff)


section \<open>The claims\<close>

text \<open>
  C1 (amended). For a resource whose access comes from containers only (the subject is
  among the access details and the resource itself is not among its providers), the
  provenance is the layout kind whenever a layout is among the providers, and the video
  wall kind only when no layout but a video wall is: the layout outranks the video
  wall (priority keys 2 and 1, the greater key wins). The claim as stated has the
  order reversed.
\<close>

theorem container_provenance_priority:
  assumes "map_of details (currentSubjectId ctx) = Some providers"
    and "Some res \<notin> set providers"
  shows "providedVia (resourceInfoFor ctx res accessRight details) =
     (if \<exists>c. Some c \<in> set providers \<and> resourceClass c = LayoutResource then layout
      else if \<exists>c. Some c \<in> set providers \<and> resourceClass c = VideoWallResource then videowall
      else none)"
  using assms
  by (simp add: resourceInfoFor_def scanProviders_providedVia defaultInfo_def)

theorem container_provenance_priority_witness:
  "providedVia (resourceInfoFor (scenarioContext [200 \<mapsto> viewRight, 201 \<mapsto> viewRight]
       [camera 101, layoutWith 200 [101], videoWallWith 201 [101]])
     (camera 101) viewRight
     [(u1, [Some (videoWallWith 201 [101]), Some (layoutWith 200 [101])])]) = layout
   \<and> providedVia (resourceInfoFor (scenarioContext [201 \<mapsto> viewRight]
       [camera 101, layoutWith 200 [101], videoWallWith 201 [101]])
     (camera 101) viewRight
     [(u1, [Some (videoWallWith 201 [101])])]) = videowall"
proof -
  let ?pool = "[camera 101, layoutWith 200 [101], videoWallWith 201 [101]]"
  let ?both = "[Some (videoWallWith 201 [101]), Some (layoutWith 200 [101])]"
  let ?wall = "[Some (videoWallWith 201 [101])]"
  let ?c2 = "scenarioContext [200 \<mapsto> viewRight, 201 \<mapsto> viewRight] ?pool"
  let ?c1 = "scenarioContext [201 \<mapsto> viewRight] ?pool"
  have both: "map_of [(u1, ?both)] (currentSubjectId ?c2) = Some ?both"
    and wall: "map_of [(u1, ?wall)] (currentSubjectId ?c1) = Some ?wall"
    by (simp_all add: scenarioContext_def)
  have notOwn: "Some (camera 101) \<notin> set ?both" "Some (camera 101) \<notin> set ?wall"
    by (simp_all add: camera_def layoutWith_def videoWallWith_def)
  have "\<exists>c. Some c \<in> set ?both \<and> resourceClass c = LayoutResource"
    by (rule exI [of _ "layoutWith 200 [101]"]) (simp add: layoutWith_def)
  with container_provenance_priority [OF both notOwn(1), of viewRight]
  have first: "providedVia (resourceInfoFor ?c2 (camera 101) viewRight [(u1, ?both)]) = layout"
    by (simp split del: if_split)
  have "\<not> (\<exists>c. Some c \<in> set ?wall \<and> resourceClass c = LayoutResource)"
    by (simp add: videoWallWith_def)
  moreover have "\<exists>c. Some c \<in> set ?wall \<and> resourceClass c = VideoWallResource"
    by (rule exI [of _ "videoWallWith 201 [101]"]) (simp add: videoWallWith_def)
  ultimately
  have second: "providedVia (resourceInfoFor ?c1 (camera 101) viewRight [(u1, ?wall)]) = videowall"
    using container_provenance_priority [OF wall notOwn(2), of viewRight]
    by (simp split del: if_split)
  from first second show ?thesis
    by (rule conjI)
qed

theorem container_provenance_priority_counterexample:
  "providedVia (resourceInfoFor (scenarioContext [200 \<mapsto> viewRight, 201 \<mapsto> viewRight]
       [camera 101, layoutWith 200 [101], videoWallWith 201 [101]])
     (camera 101) viewRight
     [(u1, [Some (videoWallWith 201 [101]), Some (layoutWith 200 [101])])]) = layout
   \<and> providedVia (resourceInfoFor (scenarioContext [200 \<mapsto> viewRight, 201 \<mapsto> viewRight]
       [camera 101, layoutWith 200 [101], videoWallWith 201 [101]])
     (camera 101) viewRight
     [(u1, [Some (layoutWith 200 [101]), Some (videoWallWith 201 [101])])]) = layout
   \<and> accessDetails (scenarioContext [200 \<mapsto> viewRight, 201 \<mapsto> viewRight]
       [camera 101, layoutWith 200 [101], videoWallWith 201 [101]]) (camera 101) viewRight
     = [(u1, [Some (layoutWith 200 [101]), Some (videoWallWith 201 [101])])]"
  by (simp add: scenario_defs resolve_defs)

text \<open>
  C2 (the code differs). Equality of two access infos should compare every field. The
  \<open>operator==\<close> of the code leaves \<open>totalChildCount\<close> out: the infos of the collection of
  all devices with three cameras, none of them granted, and with no camera at all
  compare equal, although their total counts are 3 and 0.
\<close>

theorem ResourceAccessInfo_eq_ignores_totalChildCount:
  "ResourceAccessInfo_eq
     (resourceGroupInfo (scenarioContext Map.empty [camera 101, camera 102, camera 103])
        kAllDevicesGroupId viewRight)
     (resourceGroupInfo (scenarioContext Map.empty []) kAllDevicesGroupId viewRight)
   \<and> totalChildCount
       (resourceGroupInfo (scenarioContext Map.empty [camera 101, camera 102, camera 103])
          kAllDevicesGroupId viewRight) = 3
   \<and> totalChildCount
       (resourceGroupInfo (scenarioContext Map.empty []) kAllDevicesGroupId viewRight) = 0"
  by (simp add: ResourceAccessInfo_eq_def scenario_defs resolve_defs)

text \<open>
  C3. For every toggle, an entry of the access map that the toggle changes is never
  stored as zero: it holds a non-zero mask or is removed. So a map without zero entries
  stays without zero entries.
\<close>

theorem toggle_stores_no_zero_entry:
  assumes "toggle d index w = Inr d'"
    and "contextPtr d = Some ctx"
    and "contextPtr d' = Some ctx'"
  shows "(\<forall>k. ownResourceAccessMap ctx' k \<noteq> ownResourceAccessMap ctx k
              \<longrightarrow> ownResourceAccessMap ctx' k \<noteq> Some 0)
         \<and> ((\<forall>k. ownResourceAccessMap ctx k \<noteq> Some 0)
              \<longrightarrow> (\<forall>k. ownResourceAccessMap ctx' k \<noteq> Some 0))"
proof -
  have new_zero: "ownResourceAccessMap ctx k = Some 0"
    if "ownResourceAccessMap ctx' k = Some 0" for k
  proof -
    from toggle_Inr_cases [OF assms(1,2)]
    consider "d' = d"
      | "d' = d\<lparr>contextPtr := Some (ctx\<lparr>ownResourceAccessMap :=
                  toggledAccessMap ctx (resource d) (toggleTargetId d)
                    (accessRightList d ! nat index) (info d ! nat index) w\<rparr>)\<rparr>"
      by blast
    then show ?thesis
    proof cases
      case 1
      with assms(2,3) that show ?thesis by simp
    next
      case 2
      with assms(3) have "ownResourceAccessMap ctx' =
          toggledAccessMap ctx (resource d) (toggleTargetId d)
            (accessRightList d ! nat index) (info d ! nat index) w"
        by auto
      with that show ?thesis
        by (simp add: toggledAccessMap_no_new_zero)
    qed
  qed
  show ?thesis
    using new_zero by metis
qed

theorem toggle_stores_no_zero_entry_witness:
  "\<forall>k. ownResourceAccessMap
         (scenarioContext [102 \<mapsto> viewRight, 103 \<mapsto> viewRight]
            [camera 101, camera 102, camera 103]) k \<noteq> Some 0"
proof -
  have "\<forall>k. ownResourceAccessMap
      (scenarioContext [kAllDevicesGroupId \<mapsto> viewRight]
         [camera 101, camera 102, camera 103]) k \<noteq> Some 0"
    by (simp add: scenario_defs kAllDevicesGroupId_def)
  with toggle_stores_no_zero_entry [OF scenario2_toggle, of
      "scenarioContext [kAllDevicesGroupId \<mapsto> viewRight] [camera 101, camera 102, camera 103]"
      "scenarioContext [102 \<mapsto> viewRight, 103 \<mapsto> viewRight] [camera 101, camera 102, camera 103]"]
  show ?thesis
    by (simp add: scenarioModel_def)
qed

text \<open>
  C4 (the code differs). A toggle with a degenerate input should be a no-op. The guards
  of \<open>toggle\<close> cover an index outside the list of rights, a missing context and a null
  target id, but not an unknown subject: with a context whose current subject id is
  null, \<open>updateInfo\<close> reports nothing for every row (it tests the subject), while
  \<open>toggle\<close> does not test it and stores view on the collection of all devices.
\<close>

theorem toggle_null_subject_writes_map:
  "isNull (currentSubjectId ((scenarioContext Map.empty [camera 101])\<lparr>currentSubjectId := 0\<rparr>))
   \<and> info (scenarioModel ((scenarioContext Map.empty [camera 101])\<lparr>currentSubjectId := 0\<rparr>)
       None camerasAndDevices) = [defaultInfo]
   \<and> toggle
       (scenarioModel ((scenarioContext Map.empty [camera 101])\<lparr>currentSubjectId := 0\<rparr>)
          None camerasAndDevices)
       0 False
     = Inr ((scenarioModel ((scenarioContext Map.empty [camera 101])\<lparr>currentSubjectId := 0\<rparr>)
          None camerasAndDevices)
        \<lparr>contextPtr := Some ((scenarioContext [kAllDevicesGroupId \<mapsto> viewRight] [camera 101])
          \<lparr>currentSubjectId := 0\<rparr>)\<rparr>)
   \<and> toggle
       (scenarioModel ((scenarioContext Map.empty [camera 101])\<lparr>currentSubjectId := 0\<rparr>)
          None camerasAndDevices)
       0 False
     \<noteq> Inr (scenarioModel ((scenarioContext Map.empty [camera 101])\<lparr>currentSubjectId := 0\<rparr>)
          None camerasAndDevices)"
  by (simp add: scenario_defs resolve_defs toggle_defs fun_eq_iff)

text \<open>
  C5 (the code differs). Revoking a right on a member of an own-granted collection
  should leave the effective access of the other members unchanged. In the scenario 2
  without the dependent rights it does: B and C receive view, the entries of the
  collection and of A are gone. With the dependent rights (export depends on view) the
  code sets the whole widened mask on the other members: B and C receive view and
  export, although neither they nor the collection held export, so their effective
  rights grow from view to view and export. The loop over the members of a toggled
  collection cuts the mask to the rights held; the loop over the siblings does not.
\<close>

theorem toggle_member_with_dependents_overgrants:
  "toggle
     (scenarioModel (scenarioContext [kAllDevicesGroupId \<mapsto> viewRight]
        [camera 101, camera 102, camera 103]) (Some (camera 101)) otherNodeType)
     0 False
   = Inr ((scenarioModel (scenarioContext [kAllDevicesGroupId \<mapsto> viewRight]
        [camera 101, camera 102, camera 103]) (Some (camera 101)) otherNodeType)
      \<lparr>contextPtr := Some (scenarioContext [102 \<mapsto> viewRight, 103 \<mapsto> viewRight]
        [camera 101, camera 102, camera 103])\<rparr>)
   \<and> toggle
     (scenarioModel (scenarioContext [kAllDevicesGroupId \<mapsto> viewRight]
        [camera 101, camera 102, camera 103]) (Some (camera 101)) otherNodeType)
     0 True
   = Inr ((scenarioModel (scenarioContext [kAllDevicesGroupId \<mapsto> viewRight]
        [camera 101, camera 102, camera 103]) (Some (camera 101)) otherNodeType)
      \<lparr>contextPtr := Some (scenarioContext
        [102 \<mapsto> viewRight OR exportRight, 103 \<mapsto> viewRight OR exportRight]
        [camera 101, camera 102, camera 103])\<rparr>)
   \<and> effectiveOwnRights [kAllDevicesGroupId \<mapsto> viewRight] 102 kAllDevicesGroupId = viewRight
   \<and> effectiveOwnRights [102 \<mapsto> viewRight, 103 \<mapsto> viewRight] 102 kAllDevicesGroupId
       = viewRight
   \<and> effectiveOwnRights
       [102 \<mapsto> viewRight OR exportRight, 103 \<mapsto> viewRight OR exportRight]
       102 kAllDevicesGroupId = viewRight OR exportRight
   \<and> viewRight OR exportRight \<noteq> viewRight"
  by (simp add: scenario2_toggle scenario2_with_dependents_toggle)
    (simp add: effectiveOwnRights_def accessMap_value_def kAllDevicesGroupId_def viewRight_def
      exportRight_def)

text \<open>
  C6 (amended). For a toggle on a collection target (the id of the collection being no
  id of a member), the mask is propagated to every member with the collection's own
  previous bit, not with the negation of its new state: if the collection did not hold
  the right, the mask is cleared on every member, both when the collection is turned on
  and when it only counted as checked because all members were; if it held the right,
  it is turned off and every member receives the bits of the mask that the collection
  held. The collection itself receives or loses the mask as its new state says. The
  claim as stated fails when all members were checked: the new state is "off" and the
  members are cleared, not set.
\<close>

theorem toggle_collection_target:
  fixes d :: Private and ctx :: AccessSubjectEditingContext and index :: int and w :: bool
  assumes ctx: "contextPtr d = Some ctx"
    and grp: "resource d = None" "\<not> isNull (groupId d)"
    and idx: "0 \<le> index" "index < rowCount d"
    and len: "nat index < length (info d)"
    and r0: "accessRightList d ! nat index \<noteq> 0"
    and sep: "groupId d \<notin> set (getGroupContents ctx (groupId d))"
  defines "r \<equiv> accessRightList d ! nat index"
    and "g \<equiv> groupId d"
    and "m \<equiv> ownResourceAccessMap ctx"
    and "row \<equiv> info d ! nat index"
  defines "was \<equiv> hasOwnAccessRight ctx g r"
    and "will \<equiv> itemWillBeChecked ctx None g r row"
    and "msk \<equiv> toggledMask ctx None g r row w"
    and "m' \<equiv> toggledAccessMap ctx None g r row w"
  shows "toggle d index w = Inr (d\<lparr>contextPtr := Some (ctx\<lparr>ownResourceAccessMap := m'\<rparr>)\<rparr>)
    \<and> itemWasChecked ctx None g r = was
    \<and> (was \<longrightarrow> \<not> will)
    \<and> (\<forall>b \<in> set (getGroupContents ctx g).
          accessMap_value m' b =
            (if was then accessMap_value m b OR (msk AND accessMap_value m g)
             else accessMap_value m b AND NOT msk))
    \<and> accessMap_value m' g =
        (if will then accessMap_value m g OR msk else accessMap_value m g AND NOT msk)
    \<and> (\<forall>k. k \<noteq> g \<and> k \<notin> set (getGroupContents ctx g) \<longrightarrow> m' k = m k)"
  unfolding m'_def msk_def will_def was_def row_def m_def g_def r_def
  using ctx grp idx len r0 sep by (rule toggle_collection_values)

theorem toggle_collection_target_witness:
  "toggle
     (scenarioModel (scenarioContext [101 \<mapsto> viewRight] [camera 101, camera 102])
        None camerasAndDevices)
     0 False
   = Inr ((scenarioModel (scenarioContext [101 \<mapsto> viewRight] [camera 101, camera 102])
        None camerasAndDevices)
      \<lparr>contextPtr := Some (scenarioContext [kAllDevicesGroupId \<mapsto> viewRight]
         [camera 101, camera 102])\<rparr>)
   \<and> accessMap_value [kAllDevicesGroupId \<mapsto> viewRight] 101 = 0
   \<and> accessMap_value [kAllDevicesGroupId \<mapsto> viewRight] 102 = 0
   \<and> accessMap_value [kAllDevicesGroupId \<mapsto> viewRight] kAllDevicesGroupId = viewRight"
proof -
  let ?pool = "[camera 101, camera 102]"
  let ?c = "scenarioContext [101 \<mapsto> viewRight] ?pool"
  let ?d = "scenarioModel ?c None camerasAndDevices"
  let ?row = "info ?d ! nat 0"
  let ?m' = "toggledAccessMap ?c None (groupId ?d) (accessRightList ?d ! nat 0) ?row False"
  have g: "groupId ?d = kAllDevicesGroupId"
    by (simp add: groupId_def scenarioModel_fields)
  have contents: "getGroupContents ?c kAllDevicesGroupId = [101, 102]"
    by (simp add: getGroupContents_def getGroupResources_def specialResourceGroup_def
        scenarioContext_def camera_def)
  have ctx: "contextPtr ?d = Some ?c" and grp: "resource ?d = None" "\<not> isNull (groupId ?d)"
    by (simp_all add: scenarioModel_fields g isNull_def kAllDevicesGroupId_def)
  have idx: "(0 :: int) \<le> 0" "0 < rowCount ?d"
    by (simp_all add: rowCount_def scenarioModel_fields)
  have len: "nat 0 < length (info ?d)"
    by (simp add: scenarioModel_synced newResourceAccessInfo_length scenarioModel_fields)
  have r0: "accessRightList ?d ! nat 0 \<noteq> 0"
    by (simp add: scenarioModel_fields viewRight_def)
  have sep: "groupId ?d \<notin> set (getGroupContents ?c (groupId ?d))"
    unfolding g contents by (simp add: kAllDevicesGroupId_def)
  note claim = toggle_collection_target [OF ctx grp idx len r0 sep, of False]
  have m': "?m' = [kAllDevicesGroupId \<mapsto> viewRight]"
    using toggled_map_eq [OF claim [THEN conjunct1] partly_checked_collection_toggle]
    by (simp add: scenarioContext_def)
  have own: "ownResourceAccessMap ?c = [101 \<mapsto> viewRight]"
    by (simp add: scenarioContext_def)
  have was: "\<not> hasOwnAccessRight ?c kAllDevicesGroupId viewRight"
    by (simp add: hasOwnAccessRight_def scenarioContext_def accessMap_value_def testFlag_def
        kAllDevicesGroupId_def viewRight_def)
  have row: "accessRightList ?d ! nat 0 = viewRight"
    by (simp add: scenarioModel_fields)
  from claim [unfolded m' g contents own row] was partly_checked_collection_toggle
  show ?thesis
    by (simp add: accessMap_value_def kAllDevicesGroupId_def viewRight_def)
qed

theorem toggle_collection_target_counterexample:
  "toggle
     (scenarioModel (scenarioContext [101 \<mapsto> viewRight, 102 \<mapsto> viewRight]
        [camera 101, camera 102]) None camerasAndDevices)
     0 False
   = Inr ((scenarioModel (scenarioContext [101 \<mapsto> viewRight, 102 \<mapsto> viewRight]
        [camera 101, camera 102]) None camerasAndDevices)
      \<lparr>contextPtr := Some (scenarioContext Map.empty [camera 101, camera 102])\<rparr>)
   \<and> \<not> itemWillBeChecked
       (scenarioContext [101 \<mapsto> viewRight, 102 \<mapsto> viewRight] [camera 101, camera 102])
       None kAllDevicesGroupId viewRight
       (info (scenarioModel (scenarioContext [101 \<mapsto> viewRight, 102 \<mapsto> viewRight]
          [camera 101, camera 102]) None camerasAndDevices) ! 0)
   \<and> \<not> hasOwnAccessRight (scenarioContext Map.empty [camera 101, camera 102])
       kAllDevicesGroupId viewRight
   \<and> \<not> hasOwnAccessRight (scenarioContext Map.empty [camera 101, camera 102]) 101 viewRight
   \<and> \<not> hasOwnAccessRight (scenarioContext Map.empty [camera 101, camera 102]) 102 viewRight"
  by (simp add: all_checked_collection_toggle)
    (simp add: itemWillBeChecked_def itemWasChecked_def outerGroupWasChecked_def
      allChildrenWereChecked_def scenario_defs resolve_defs)

text \<open>
  C7. For every row whose provenance is the parent user group, the subject itself is
  not among the access details, and the reported groups are exactly the direct parents
  of the subject that are among the providers of the access or are recursive members of
  one of them, sorted and without repetition. In the scenario where only \<open>h1\<close>, the
  parent of the direct parent \<open>g1\<close>, holds the grant, the list is \<open>[g1]\<close> (the witness).
\<close>

theorem parent_group_provenance:
  assumes via: "providedVia (resourceInfoFor ctx res accessRight details) = parentUserGroup"
  shows "map_of details (currentSubjectId ctx) = None \<and> details \<noteq> []
    \<and> set (providerUserGroups (resourceInfoFor ctx res accessRight details)) =
        {key \<in> set (directParents (subjectHierarchy ctx) (currentSubjectId ctx)).
           key \<in> fst ` set details
           \<or> isRecursiveMember (subjectHierarchy ctx) key (map fst details)}
    \<and> sorted (providerUserGroups (resourceInfoFor ctx res accessRight details))
    \<and> distinct (providerUserGroups (resourceInfoFor ctx res accessRight details))"
proof (cases "map_of details (currentSubjectId ctx)")
  case (Some providers)
  have "providedVia (scanProviders providers defaultInfo) \<noteq> parentUserGroup"
    by (simp add: scanProviders_providedVia defaultInfo_def)
  with Some via show ?thesis
    by (auto simp: resourceInfoFor_def Let_def defaultInfo_def split: if_splits)
next
  case None
  with via have nonempty: "details \<noteq> []"
    by (auto simp: resourceInfoFor_def defaultInfo_def)
  with None have "providerUserGroups (resourceInfoFor ctx res accessRight details) =
      sort (filter
        (\<lambda>key. key \<in> set (map fst details)
               \<or> isRecursiveMember (subjectHierarchy ctx) key (map fst details))
        (directParents (subjectHierarchy ctx) (currentSubjectId ctx)))"
    by (simp add: resourceInfoFor_def Let_def)
  with None nonempty show ?thesis
    by (auto simp: distinct_directParents)
qed

theorem parent_group_provenance_witness:
  "accessDetails
     ((scenarioContext Map.empty [camera 101])
        \<lparr>storedAccessMaps := (\<lambda>s. if s = h1 then [101 \<mapsto> viewRight] else Map.empty)\<rparr>)
     (camera 101) viewRight = [(h1, [Some (camera 101)])]
   \<and> providedVia (resourceInfoFor
       ((scenarioContext Map.empty [camera 101])
          \<lparr>storedAccessMaps := (\<lambda>s. if s = h1 then [101 \<mapsto> viewRight] else Map.empty)\<rparr>)
       (camera 101) viewRight [(h1, [Some (camera 101)])]) = parentUserGroup
   \<and> set (providerUserGroups (resourceInfoFor
       ((scenarioContext Map.empty [camera 101])
          \<lparr>storedAccessMaps := (\<lambda>s. if s = h1 then [101 \<mapsto> viewRight] else Map.empty)\<rparr>)
       (camera 101) viewRight [(h1, [Some (camera 101)])])) = {g1}
   \<and> providerUserGroups (resourceInfoFor
       ((scenarioContext Map.empty [camera 101])
          \<lparr>storedAccessMaps := (\<lambda>s. if s = h1 then [101 \<mapsto> viewRight] else Map.empty)\<rparr>)
       (camera 101) viewRight [(h1, [Some (camera 101)])]) = [g1]
   \<and> g1 \<noteq> h1"
proof -
  let ?c = "(scenarioContext Map.empty [camera 101])
    \<lparr>storedAccessMaps := (\<lambda>s. if s = h1 then [101 \<mapsto> viewRight] else Map.empty)\<rparr>"
  let ?details = "[(h1, [Some (camera 101)])]"
  let ?row = "resourceInfoFor ?c (camera 101) viewRight ?details"
  have details: "accessDetails ?c (camera 101) viewRight = ?details"
    by (simp add: scenario_defs resolve_defs)
  have via: "providedVia ?row = parentUserGroup"
    by (simp add: scenario_defs resolve_defs)
  have parents: "directParents (subjectHierarchy ?c) (currentSubjectId ?c) = [g1]"
    by (simp add: directParents_def scenarioContext_def)
  have reach: "isRecursiveMember (subjectHierarchy ?c) g1 (map fst ?details)"
    by (simp add: isRecursiveMember_def directParents_def scenarioContext_def u1_def g1_def
        h1_def)
  from parent_group_provenance [OF via]
  have "set (providerUserGroups ?row) =
      {key \<in> set (directParents (subjectHierarchy ?c) (currentSubjectId ?c)).
         key \<in> fst ` set ?details
         \<or> isRecursiveMember (subjectHierarchy ?c) key (map fst ?details)}"
    and "sorted (providerUserGroups ?row)" and "distinct (providerUserGroups ?row)"
    by blast+
  with reach have groups: "set (providerUserGroups ?row) = {g1}"
    unfolding parents by auto
  have list: "providerUserGroups ?row = [g1]"
    by (simp add: scenario_defs resolve_defs)
  have "g1 \<noteq> h1"
    by (simp add: g1_def h1_def)
  with details via groups list show ?thesis
    by blast
qed

text \<open>
  C8 (amended). With a known subject, a target that is either a resource or a
  collection, and a current \<open>info\<close>, toggle takes the target as currently checked exactly
  when the right is directly granted, or the target is a resource inside an own-granted
  collection, or the target is a collection with at least one member all of whose
  members are individually checked; and the new state is the negation of that. The
  claim as stated, without "at least one member", fails for a collection without
  members, which toggle does not take as checked.
\<close>

theorem toggle_currentlyChecked:
  assumes ctx: "contextPtr d = Some ctx"
    and subj: "\<not> isNull (currentSubjectId ctx)"
    and target: "resource d = None \<or> isNull (groupId d)"
    and idx: "0 \<le> index" "index < rowCount d"
    and sync: "info d = newResourceAccessInfo d"
    and r0: "accessRightList d ! nat index \<noteq> 0"
  shows "((itemWasChecked ctx (resource d) (toggleTargetId d) (accessRightList d ! nat index)
           \<or> allChildrenWereChecked (info d ! nat index))
          \<longleftrightarrow>
          (hasOwnAccessRight ctx (toggleTargetId d) (accessRightList d ! nat index)
           \<or> (resource d \<noteq> None \<and> \<not> isNull (specialResourceGroupFor (resource d))
               \<and> hasOwnAccessRight ctx (specialResourceGroupFor (resource d))
                     (accessRightList d ! nat index))
           \<or> (resource d = None \<and> getGroupResources ctx (groupId d) \<noteq> []
               \<and> (\<forall>m \<in> set (getGroupResources ctx (groupId d)).
                     hasOwnAccessRight ctx (getId m) (accessRightList d ! nat index)))))
     \<and> (itemWillBeChecked ctx (resource d) (toggleTargetId d) (accessRightList d ! nat index)
           (info d ! nat index)
          \<longleftrightarrow>
          \<not> (itemWasChecked ctx (resource d) (toggleTargetId d) (accessRightList d ! nat index)
             \<or> allChildrenWereChecked (info d ! nat index)))"
proof -
  from idx have i: "nat index < length (accessRightList d)"
    by (simp add: rowCount_def)
  have tid: "resource d = None \<Longrightarrow> toggleTargetId d = groupId d"
    by (simp add: toggleTargetId_def)
  note row = synced_row_all_checked_iff [OF ctx subj target i]
  show ?thesis
    unfolding sync row itemWillBeChecked_def itemWasChecked_def
      outerGroupWasChecked_iff [OF r0]
    using tid by (auto simp: hasOwnAccessRight_def)
qed

theorem toggle_currentlyChecked_witness:
  "(itemWasChecked
      (scenarioContext [kAllDevicesGroupId \<mapsto> viewRight] [camera 101, camera 102, camera 103])
      (Some (camera 101)) 101 viewRight
    \<or> allChildrenWereChecked
        (info (scenarioModel
           (scenarioContext [kAllDevicesGroupId \<mapsto> viewRight]
              [camera 101, camera 102, camera 103])
           (Some (camera 101)) otherNodeType) ! 0))
   \<and> \<not> itemWillBeChecked
       (scenarioContext [kAllDevicesGroupId \<mapsto> viewRight] [camera 101, camera 102, camera 103])
       (Some (camera 101)) 101 viewRight
       (info (scenarioModel
          (scenarioContext [kAllDevicesGroupId \<mapsto> viewRight]
             [camera 101, camera 102, camera 103])
          (Some (camera 101)) otherNodeType) ! 0)"
proof -
  let ?c = "scenarioContext [kAllDevicesGroupId \<mapsto> viewRight]
    [camera 101, camera 102, camera 103]"
  let ?d = "scenarioModel ?c (Some (camera 101)) otherNodeType"
  have ctx: "contextPtr ?d = Some ?c"
    by (simp add: scenarioModel_fields)
  have subj: "\<not> isNull (currentSubjectId ?c)"
    by (simp add: scenarioContext_def isNull_def u1_def)
  have target: "resource ?d = None \<or> isNull (groupId ?d)"
    by (simp add: groupId_def scenarioModel_fields isNull_def)
  have idx: "(0 :: int) \<le> 0" "0 < rowCount ?d"
    by (simp_all add: rowCount_def scenarioModel_fields)
  have r0: "accessRightList ?d ! nat 0 \<noteq> 0"
    by (simp add: scenarioModel_fields viewRight_def)
  note claim = toggle_currentlyChecked [OF ctx subj target idx scenarioModel_synced r0]
  have tid: "toggleTargetId ?d = 101"
    by (simp add: toggleTargetId_def scenarioModel_fields camera_def)
  have row: "accessRightList ?d ! nat 0 = viewRight"
    by (simp add: scenarioModel_fields)
  have granted: "\<not> isNull (specialResourceGroupFor (resource ?d))
      \<and> hasOwnAccessRight ?c (specialResourceGroupFor (resource ?d)) viewRight"
    by (simp add: scenarioModel_fields hasOwnAccessRight_def specialResourceGroupFor_def
        camera_def scenarioContext_def accessMap_value_def testFlag_def isNull_def
        kAllDevicesGroupId_def)
  have res: "resource ?d = Some (camera 101)"
    by (simp add: scenarioModel_fields)
  from claim granted show ?thesis
    unfolding tid row res by simp
qed

theorem toggle_currentlyChecked_counterexample:
  "specCurrentlyChecked (scenarioModel (scenarioContext Map.empty []) None camerasAndDevices)
     (scenarioContext Map.empty []) viewRight
   \<and> \<not> (itemWasChecked (scenarioContext Map.empty []) None kAllDevicesGroupId viewRight
         \<or> allChildrenWereChecked
             (info (scenarioModel (scenarioContext Map.empty []) None camerasAndDevices) ! 0))
   \<and> itemWillBeChecked (scenarioContext Map.empty []) None kAllDevicesGroupId viewRight
       (info (scenarioModel (scenarioContext Map.empty []) None camerasAndDevices) ! 0)"
  by (simp add: specCurrentlyChecked_def itemWillBeChecked_def itemWasChecked_def
      outerGroupWasChecked_def allChildrenWereChecked_def scenario_defs resolve_defs)

text \<open>
  C9 (amended). Without the dependent rights, with a known subject, a current \<open>info\<close>, a
  right that is one bit, ids of resources that are no ids of collections and no zero
  entry on the target: when the first toggle turns the right on, resolving then reports
  \<open>own\<close>. For a resource target the second toggle restores the model, and with it the
  resolve result. For a collection target it does not: the second toggle grants the
  right to every member, so resolving reports all members checked, which differs from
  the result before the first toggle unless the collection has no member. The claim as
  stated fails for a collection with a member.
\<close>

theorem toggle_on_then_off:
  fixes d :: Private and ctx :: AccessSubjectEditingContext and index :: int
  assumes ctx: "contextPtr d = Some ctx"
    and subj: "\<not> isNull (currentSubjectId ctx)"
    and target: "resource d = None \<or> isNull (groupId d)"
    and id: "\<not> isNull (toggleTargetId d)"
    and idx: "0 \<le> index" "index < rowCount d"
    and sync: "info d = newResourceAccessInfo d"
    and flag: "isAccessRightFlag (accessRightList d ! nat index)"
    and on: "itemWillBeChecked ctx (resource d) (toggleTargetId d)
        (accessRightList d ! nat index) (info d ! nat index)"
    and sep: "toggleTargetId d \<noteq> specialResourceGroupFor (resource d)"
      "groupId d \<notin> set (getGroupContents ctx (groupId d))"
    and nz: "ownResourceAccessMap ctx (toggleTargetId d) \<noteq> Some 0"
  shows "\<exists>d1 d2. toggleAndUpdate d index False = Inr d1
    \<and> providedVia (info d1 ! nat index) = own
    \<and> toggleAndUpdate d1 index False = Inr d2
    \<and> (resource d \<noteq> None \<longrightarrow> d2 = d)
    \<and> (resource d = None \<longrightarrow>
         info d2 ! nat index =
           defaultInfo\<lparr>checkedChildCount := int (length (getGroupResources ctx (groupId d))),
             totalChildCount := int (length (getGroupResources ctx (groupId d)))\<rparr>
         \<and> (ResourceAccessInfo_eq (info d2 ! nat index) (info d ! nat index)
              \<longleftrightarrow> getGroupResources ctx (groupId d) = []))"
proof (cases "resource d")
  case None
  then have tid: "toggleTargetId d = groupId d"
    by (simp add: toggleTargetId_def)
  have r0: "accessRightList d ! nat index \<noteq> 0"
    using flag by (rule isAccessRightFlag_nonzero)
  from toggle_collection_on_off
      [OF ctx subj None id [unfolded tid] idx sync r0 on [unfolded tid None] sep(2)]
  obtain d1 d2 where "toggleAndUpdate d index False = Inr d1"
    "providedVia (info d1 ! nat index) = own"
    "toggleAndUpdate d1 index False = Inr d2"
    "info d2 ! nat index =
       defaultInfo\<lparr>checkedChildCount := int (length (getGroupResources ctx (groupId d))),
         totalChildCount := int (length (getGroupResources ctx (groupId d)))\<rparr>"
    "ResourceAccessInfo_eq (info d2 ! nat index) (info d ! nat index)
       \<longleftrightarrow> getGroupResources ctx (groupId d) = []"
    by blast
  with None show ?thesis
    by (intro exI [of _ d1] exI [of _ d2]) simp
next
  case (Some res)
  then have tid: "toggleTargetId d = getId res"
    by (simp add: toggleTargetId_def)
  from Some target have grp: "isNull (groupId d)"
    by simp
  from toggle_resource_on_off
      [OF ctx subj Some grp idx sync flag on [unfolded tid Some] id [unfolded tid]
        sep(1) [unfolded tid Some] nz [unfolded tid]]
  obtain d1 where "toggleAndUpdate d index False = Inr d1"
    "providedVia (info d1 ! nat index) = own"
    "toggleAndUpdate d1 index False = Inr d"
    by blast
  with Some show ?thesis
    by (intro exI [of _ d1] exI [of _ d]) simp
qed

theorem toggle_on_then_off_witness:
  "toggleAndUpdate
     (scenarioModel (scenarioContext Map.empty [camera 101]) (Some (camera 101)) otherNodeType)
     0 False
   = Inr (scenarioModel (scenarioContext [101 \<mapsto> viewRight] [camera 101])
       (Some (camera 101)) otherNodeType)
   \<and> providedVia (info (scenarioModel (scenarioContext [101 \<mapsto> viewRight] [camera 101])
       (Some (camera 101)) otherNodeType) ! 0) = own
   \<and> toggleAndUpdate
     (scenarioModel (scenarioContext [101 \<mapsto> viewRight] [camera 101])
        (Some (camera 101)) otherNodeType)
     0 False
   = Inr (scenarioModel (scenarioContext Map.empty [camera 101]) (Some (camera 101))
       otherNodeType)"
proof -
  let ?c = "scenarioContext Map.empty [camera 101]"
  let ?d = "scenarioModel ?c (Some (camera 101)) otherNodeType"
  let ?d1 = "scenarioModel (scenarioContext [101 \<mapsto> viewRight] [camera 101])
    (Some (camera 101)) otherNodeType"
  have ctx: "contextPtr ?d = Some ?c"
    by (simp add: scenarioModel_fields)
  have subj: "\<not> isNull (currentSubjectId ?c)"
    by (simp add: scenarioContext_def isNull_def u1_def)
  have gid: "groupId ?d = 0"
    by (simp add: groupId_def scenarioModel_fields)
  have target: "resource ?d = None \<or> isNull (groupId ?d)"
    by (simp add: gid isNull_def)
  have tid: "toggleTargetId ?d = 101"
    by (simp add: toggleTargetId_def scenarioModel_fields camera_def)
  have id: "\<not> isNull (toggleTargetId ?d)"
    by (simp add: tid isNull_def)
  have idx: "(0 :: int) \<le> 0" "0 < rowCount ?d"
    by (simp_all add: rowCount_def scenarioModel_fields)
  have flag: "isAccessRightFlag (accessRightList ?d ! nat 0)"
    by (simp add: scenarioModel_fields isAccessRightFlag_def viewRight_def)
      (rule image_eqI [of _ _ 0], simp_all)
  have on: "itemWillBeChecked ?c (resource ?d) (toggleTargetId ?d)
      (accessRightList ?d ! nat 0) (info ?d ! nat 0)"
    unfolding tid
    by (simp add: itemWillBeChecked_def itemWasChecked_def outerGroupWasChecked_def
        allChildrenWereChecked_def scenario_defs resolve_defs)
  have sep: "toggleTargetId ?d \<noteq> specialResourceGroupFor (resource ?d)"
    "groupId ?d \<notin> set (getGroupContents ?c (groupId ?d))"
    unfolding tid gid
    by (simp_all add: scenarioModel_fields specialResourceGroupFor_def camera_def
        kAllDevicesGroupId_def getGroupContents_def getGroupResources_def
        specialResourceGroup_def kAllServersGroupId_def kAllWebPagesGroupId_def
        kAllVideoWallsGroupId_def)
  have nz: "ownResourceAccessMap ?c (toggleTargetId ?d) \<noteq> Some 0"
    by (simp add: scenarioContext_def)
  from toggle_on_then_off [OF ctx subj target id idx scenarioModel_synced flag on sep nz]
  obtain d1 d2 where first: "toggleAndUpdate ?d 0 False = Inr d1"
    and via: "providedVia (info d1 ! nat 0) = own"
    and second: "toggleAndUpdate d1 0 False = Inr d2"
    and same: "resource ?d \<noteq> None \<longrightarrow> d2 = ?d"
    by blast
  from first have d1: "d1 = ?d1"
    by (simp add: toggleAndUpdate_resource_on)
  from same have d2: "d2 = ?d"
    by (simp add: scenarioModel_fields)
  from via second show ?thesis
    unfolding d1 d2 by (simp add: toggleAndUpdate_resource_on)
qed

theorem toggle_on_then_off_counterexample:
  "toggleAndUpdate
     (scenarioModel (scenarioContext Map.empty [camera 101]) None camerasAndDevices) 0 False
   = Inr (scenarioModel (scenarioContext [kAllDevicesGroupId \<mapsto> viewRight] [camera 101])
       None camerasAndDevices)
   \<and> info (scenarioModel (scenarioContext [kAllDevicesGroupId \<mapsto> viewRight] [camera 101])
       None camerasAndDevices) = [defaultInfo\<lparr>providedVia := own\<rparr>]
   \<and> toggleAndUpdate
     (scenarioModel (scenarioContext [kAllDevicesGroupId \<mapsto> viewRight] [camera 101])
        None camerasAndDevices) 0 False
   = Inr (scenarioModel (scenarioContext [101 \<mapsto> viewRight] [camera 101])
       None camerasAndDevices)
   \<and> info (scenarioModel (scenarioContext [101 \<mapsto> viewRight] [camera 101])
       None camerasAndDevices)
     = [defaultInfo\<lparr>checkedChildCount := 1, totalChildCount := 1\<rparr>]
   \<and> info (scenarioModel (scenarioContext Map.empty [camera 101]) None camerasAndDevices)
     = [defaultInfo\<lparr>checkedChildCount := 0, totalChildCount := 1\<rparr>]
   \<and> \<not> ResourceAccessInfo_eq
       (defaultInfo\<lparr>checkedChildCount := 1, totalChildCount := 1\<rparr>)
       (defaultInfo\<lparr>checkedChildCount := 0, totalChildCount := 1\<rparr>)"
  by (simp add: toggleAndUpdate_collection_on toggleAndUpdate_collection_off)
    (simp add: ResourceAccessInfo_eq_def scenario_defs resolve_defs)

text \<open>
  C10. For a collection target without members and without a direct own grant (the
  \<open>info\<close> being current), toggle does not take the collection as currently checked, so
  the new state is "checked": the toggle stores the mask on the collection, whose own
  bit of the right is then set, and changes nothing else.
\<close>

theorem toggle_empty_collection_turns_on:
  assumes ctx: "contextPtr d = Some ctx"
    and grp: "resource d = None" "\<not> isNull (groupId d)"
    and idx: "0 \<le> index" "index < rowCount d"
    and sync: "info d = newResourceAccessInfo d"
    and empty: "getGroupResources ctx (groupId d) = []"
    and notOwn: "\<not> hasOwnAccessRight ctx (groupId d) (accessRightList d ! nat index)"
    and r0: "accessRightList d ! nat index \<noteq> 0"
  shows "\<not> allChildrenWereChecked (info d ! nat index)
    \<and> itemWillBeChecked ctx None (groupId d) (accessRightList d ! nat index) (info d ! nat index)
    \<and> toggle d index w =
        Inr (d\<lparr>contextPtr := Some (ctx\<lparr>ownResourceAccessMap :=
          (ownResourceAccessMap ctx)(groupId d \<mapsto>
             accessMap_value (ownResourceAccessMap ctx) (groupId d) OR
               (if w then accessRightList d ! nat index
                          OR requiredAccessRights ctx (accessRightList d ! nat index)
                else accessRightList d ! nat index))\<rparr>)\<rparr>)
    \<and> testFlag
        (accessMap_value (ownResourceAccessMap ctx) (groupId d) OR
           (if w then accessRightList d ! nat index
                      OR requiredAccessRights ctx (accessRightList d ! nat index)
            else accessRightList d ! nat index))
        (accessRightList d ! nat index)"
proof -
  define r where "r = accessRightList d ! nat index"
  define row where "row = info d ! nat index"
  define msk where "msk = (if w then r OR requiredAccessRights ctx r else r)"
  from idx have i: "nat index < length (accessRightList d)"
    by (simp add: rowCount_def)
  have tid: "toggleTargetId d = groupId d"
    using grp by (simp add: toggleTargetId_def)
  have notAll: "\<not> allChildrenWereChecked row"
    unfolding row_def sync
    using ctx grp i empty by (rule info_row_not_all_checked_if_no_members)
  have notWas: "\<not> itemWasChecked ctx None (groupId d) r"
    using notOwn r0
    by (simp add: itemWasChecked_def outerGroupWasChecked_None hasOwnAccessRight_def r_def)
  have will: "itemWillBeChecked ctx None (groupId d) r row"
    using notAll notWas by (simp add: itemWillBeChecked_def)
  have mask: "toggledMask ctx None (groupId d) r row w = msk"
    using will by (simp add: toggledMask_def msk_def)
  have flag: "testFlag (accessMap_value (ownResourceAccessMap ctx) (groupId d) OR msk) r"
    using r0 by (simp add: msk_def r_def testFlag_or testFlag_or_mask)
  have notFlag: "\<not> testFlag (accessMap_value (ownResourceAccessMap ctx) (groupId d)) r"
    using notOwn by (simp add: hasOwnAccessRight_def r_def)
  have map: "toggledAccessMap ctx None (groupId d) r row w =
      (ownResourceAccessMap ctx)(groupId d \<mapsto>
         accessMap_value (ownResourceAccessMap ctx) (groupId d) OR msk)"
    using r0 notWas will
    by (simp add: toggledAccessMap_def Let_def mask outerGroupWasChecked_None r_def [symmetric]
        getGroupContents_def empty modifyEach_Nil
        modifyAccessRights_set_new [OF notFlag _ flag])
  have len: "nat index < length (info d)"
    using i by (simp add: sync newResourceAccessInfo_length)
  have tog: "toggle d index w =
      Inr (d\<lparr>contextPtr := Some (ctx\<lparr>ownResourceAccessMap :=
        toggledAccessMap ctx None (groupId d) r row w\<rparr>)\<rparr>)"
    using ctx grp idx len by (simp add: toggle_def tid Let_def r_def row_def)
  show ?thesis
    using notAll will flag tog unfolding map unfolding r_def row_def msk_def
    by (simp split del: if_split)
qed

theorem toggle_empty_collection_turns_on_witness:
  "toggle (scenarioModel (scenarioContext Map.empty []) None camerasAndDevices) 0 False
   = Inr ((scenarioModel (scenarioContext Map.empty []) None camerasAndDevices)
       \<lparr>contextPtr := Some (scenarioContext [kAllDevicesGroupId \<mapsto> viewRight] [])\<rparr>)"
proof -
  let ?c = "scenarioContext Map.empty []"
  let ?d = "scenarioModel ?c None camerasAndDevices"
  have gid: "groupId ?d = kAllDevicesGroupId"
    by (simp add: groupId_def scenarioModel_fields)
  have "\<not> isNull (groupId ?d)"
    by (simp add: gid isNull_def kAllDevicesGroupId_def)
  moreover have "(0 :: int) < rowCount ?d"
    by (simp add: rowCount_def scenarioModel_fields)
  moreover have "getGroupResources ?c (groupId ?d) = []"
    by (simp add: gid getGroupResources_def specialResourceGroup_def scenarioContext_def)
  moreover have "\<not> hasOwnAccessRight ?c (groupId ?d) (accessRightList ?d ! nat 0)"
    by (simp add: gid hasOwnAccessRight_def scenarioContext_def accessMap_value_def
        testFlag_def viewRight_def scenarioModel_fields)
  moreover have "accessRightList ?d ! nat 0 \<noteq> 0"
    by (simp add: scenarioModel_fields viewRight_def)
  ultimately have "toggle ?d 0 False =
      Inr (?d\<lparr>contextPtr := Some (?c\<lparr>ownResourceAccessMap :=
        (ownResourceAccessMap ?c)(groupId ?d \<mapsto>
           accessMap_value (ownResourceAccessMap ?c) (groupId ?d) OR
             (if False then accessRightList ?d ! nat 0
                        OR requiredAccessRights ?c (accessRightList ?d ! nat 0)
              else accessRightList ?d ! nat 0))\<rparr>)\<rparr>)"
    using toggle_empty_collection_turns_on [of ?d ?c 0 False]
    by (simp add: scenarioModel_fields scenarioModel_synced)
  then have "toggle ?d 0 False =
      Inr (?d\<lparr>contextPtr := Some (?c\<lparr>ownResourceAccessMap :=
        (ownResourceAccessMap ?c)(kAllDevicesGroupId \<mapsto>
           accessMap_value (ownResourceAccessMap ?c) kAllDevicesGroupId OR viewRight)\<rparr>)\<rparr>)"
    unfolding gid scenarioModel_fields by simp
  then show ?thesis
    by (simp add: scenarioContext_def accessMap_value_def)
qed

end
